theory Spec2Isabelle
  imports Main
begin

section \<open>Python strings\<close>

text \<open>
  A Python \<open>str\<close> is modelled as a \<open>string\<close> whose characters are the code points
  U+0000 to U+00FF; text with code points beyond U+00FF is outside the model. The
  character classes below are those of Python 3 on that range: \<open>str.isspace\<close> and the
  regular-expression class \<open>\s\<close> agree, \<open>\d\<close> is the ten ASCII digits, and \<open>\w\<close> is
  the alphanumeric characters and the underscore.
\<close>

definition code :: "char \<Rightarrow> nat" where
  "code c = of_char c"

definition is_space :: "char \<Rightarrow> bool" where
  "is_space c = (let n = code c in (9 \<le> n \<and> n \<le> 13) \<or> (28 \<le> n \<and> n \<le> 32) \<or> n = 133 \<or> n = 160)"

definition is_digit :: "char \<Rightarrow> bool" where
  "is_digit c = (let n = code c in 48 \<le> n \<and> n \<le> 57)"

definition is_upper :: "char \<Rightarrow> bool" where
  "is_upper c = (let n = code c in 65 \<le> n \<and> n \<le> 90)"

definition is_word :: "char \<Rightarrow> bool" where
  "is_word c = (let n = code c in
     (48 \<le> n \<and> n \<le> 57) \<or> (65 \<le> n \<and> n \<le> 90) \<or> n = 95 \<or> (97 \<le> n \<and> n \<le> 122) \<or>
     n = 170 \<or> n = 178 \<or> n = 179 \<or> n = 181 \<or> n = 185 \<or> n = 186 \<or> (188 \<le> n \<and> n \<le> 190) \<or>
     (192 \<le> n \<and> n \<le> 214) \<or> (216 \<le> n \<and> n \<le> 246) \<or> 248 \<le> n)"

text \<open>
  \<open>str.upper\<close>, one character at a time. The sharp s (U+00DF) becomes \<open>SS\<close>. The micro
  sign (U+00B5) and y with diaeresis (U+00FF) have upper-case forms beyond U+00FF; they
  are left in place, which changes no test of the program, since every test on an
  upper-cased line looks for an ASCII keyword.
\<close>

definition upper_char :: "char \<Rightarrow> string" where
  "upper_char c = (let n = code c in
     if (97 \<le> n \<and> n \<le> 122) \<or> (224 \<le> n \<and> n \<le> 254 \<and> n \<noteq> 247) then [char_of (n - 32)]
     else if n = 223 then ''SS''
     else [c])"

definition upper :: "string \<Rightarrow> string" where
  "upper s = concat (map upper_char s)"

definition strip :: "string \<Rightarrow> string" where
  "strip s = rev (dropWhile is_space (rev (dropWhile is_space s)))"

definition startswith :: "string \<Rightarrow> string \<Rightarrow> bool" where
  "startswith s p = (take (length p) s = p)"

definition endswith :: "string \<Rightarrow> string \<Rightarrow> bool" where
  "endswith s p = (length p \<le> length s \<and> drop (length s - length p) s = p)"

text \<open>\<open>contains sub s\<close> is Python's \<open>sub in s\<close>.\<close>

fun contains :: "string \<Rightarrow> string \<Rightarrow> bool" where
  "contains sub [] = (sub = [])"
| "contains sub (c # cs) = (startswith (c # cs) sub \<or> contains sub cs)"

definition replace_nul :: "string \<Rightarrow> string" where
  "replace_nul s = filter (\<lambda>c. c \<noteq> CHR 0x00) s"

text \<open>\<open>join sep parts\<close> is \<open>sep.join(parts)\<close>; \<open>split_nl text\<close> is \<open>text.split('\n')\<close>.\<close>

fun join :: "string \<Rightarrow> string list \<Rightarrow> string" where
  "join sep [] = []"
| "join sep [p] = p"
| "join sep (p # q # ps) = p @ sep @ join sep (q # ps)"

fun split_nl :: "string \<Rightarrow> string list" where
  "split_nl [] = [[]]"
| "split_nl (c # cs) =
     (if c = CHR 0x0A then [] # split_nl cs
      else (case split_nl cs of [] \<Rightarrow> [[c]] | l # ls \<Rightarrow> (c # l) # ls))"

section \<open>Python values, errors and indexing\<close>

datatype py_error = IndexError | AttributeError | TypeError

datatype pyval = Str string | PyNone

text \<open>
  \<open>py_index xs i\<close> is \<open>xs[i]\<close>: an index below zero counts from the end, and an index
  out of range raises.
\<close>

definition py_index :: "'a list \<Rightarrow> int \<Rightarrow> py_error + 'a" where
  "py_index xs i =
     (if 0 \<le> i \<and> i < int (length xs) then Inr (xs ! nat i)
      else if i < 0 \<and> - int (length xs) \<le> i then Inr (xs ! nat (int (length xs) + i))
      else Inl IndexError)"

text \<open>\<open>py_range a b\<close> is \<open>range(a, b)\<close>.\<close>

definition py_range :: "int \<Rightarrow> int \<Rightarrow> int list" where
  "py_range a b = [a..b - 1]"

section \<open>Regular expressions with the backtracking order of Python's \<open>re\<close>\<close>

text \<open>
  The patterns of the parser use character classes, concatenation, counted greedy and
  lazy repetition of a class, greedy optional and starred groups, capture groups and the
  word boundary. \<open>ms r st\<close> lists every way in which \<open>r\<close> matches at state \<open>st\<close>, in the order
  in which a backtracking matcher tries them; the head of the list is the match Python
  reports. A state is the character before the position (for \<open>\b\<close>), the remaining input
  and the captured groups.
\<close>

datatype atom = Ch char | Rng char char | Dgt | Spc

datatype cls = One atom | Dot | In "atom list" | NotIn "atom list"

datatype re =
    Sym cls
  | Cat re re
  | Rep cls nat "nat option" bool
  | Opt re
  | Star re
  | Grp nat re
  | Bnd

fun atom_ok :: "atom \<Rightarrow> char \<Rightarrow> bool" where
  "atom_ok (Ch a) c = (c = a)"
| "atom_ok (Rng a b) c = (code a \<le> code c \<and> code c \<le> code b)"
| "atom_ok Dgt c = is_digit c"
| "atom_ok Spc c = is_space c"

fun cls_ok :: "cls \<Rightarrow> char \<Rightarrow> bool" where
  "cls_ok (One a) c = atom_ok a c"
| "cls_ok Dot c = (c \<noteq> CHR 0x0A)"
| "cls_ok (In as) c = list_ex (\<lambda>a. atom_ok a c) as"
| "cls_ok (NotIn as) c = (\<not> list_ex (\<lambda>a. atom_ok a c) as)"

type_synonym caps = "nat \<Rightarrow> string option"

type_synonym st = "char option \<times> string \<times> caps"

text \<open>
  \<open>run c hi p s\<close> lists the positions reached by reading 0, 1, 2, ... characters of class
  \<open>c\<close> from \<open>s\<close>, at most \<open>hi\<close> of them.
\<close>

fun run :: "cls \<Rightarrow> nat option \<Rightarrow> char option \<Rightarrow> string \<Rightarrow> (char option \<times> string) list" where
  "run c hi p [] = [(p, [])]"
| "run c hi p (x # xs) =
     (p, x # xs) #
     (if hi \<noteq> Some 0 \<and> cls_ok c x then run c (map_option (\<lambda>n. n - 1) hi) (Some x) xs else [])"

definition at_boundary :: "char option \<Rightarrow> string \<Rightarrow> bool" where
  "at_boundary p s =
     ((case p of None \<Rightarrow> False | Some c \<Rightarrow> is_word c) \<noteq>
      (case s of [] \<Rightarrow> False | c # _ \<Rightarrow> is_word c))"

function ms :: "re \<Rightarrow> st \<Rightarrow> st list" where
  "ms (Sym c) (p, s, k) =
     (case s of [] \<Rightarrow> [] | x # xs \<Rightarrow> if cls_ok c x then [(Some x, xs, k)] else [])"
| "ms (Cat a b) st = concat (map (ms b) (ms a st))"
| "ms (Rep c lo hi greedy) (p, s, k) =
     map (\<lambda>(p', s'). (p', s', k)) ((if greedy then rev else id) (drop lo (run c hi p s)))"
| "ms (Opt r) st = ms r st @ [st]"
| "ms (Star r) (p, s, k) =
     concat (map (\<lambda>(p', s', k'). if length s' < length s then ms (Star r) (p', s', k') else [])
                 (ms r (p, s, k)))
     @ [(p, s, k)]"
| "ms (Grp n r) (p, s, k) =
     map (\<lambda>(p', s', k'). (p', s', k'(n := Some (take (length s - length s') s)))) (ms r (p, s, k))"
| "ms Bnd (p, s, k) = (if at_boundary p s then [(p, s, k)] else [])"
  by pat_completeness auto
termination
  by (relation "inv_image (less_than <*lex*> less_than) (\<lambda>(r, p, s, k). (size r, length s))") auto

text \<open>
  A match object is the text before the match (so that its length is \<open>match.start()\<close>)
  and the groups. \<open>re_search r s\<close> is \<open>re.search(r, s)\<close>: the first match at the leftmost
  position that has one.
\<close>

type_synonym rmatch = "string \<times> caps"

fun search_from :: "re \<Rightarrow> string \<Rightarrow> char option \<Rightarrow> string \<Rightarrow> rmatch option" where
  "search_from r pre p [] =
     (case ms r (p, [], \<lambda>_. None) of [] \<Rightarrow> None | (p', s', k) # _ \<Rightarrow> Some (pre, k))"
| "search_from r pre p (x # xs) =
     (case ms r (p, x # xs, \<lambda>_. None) of
        [] \<Rightarrow> search_from r (pre @ [x]) (Some x) xs
      | (p', s', k) # _ \<Rightarrow> Some (pre, k))"

definition re_search :: "re \<Rightarrow> string \<Rightarrow> rmatch option" where
  "re_search r s = search_from r [] None s"

text \<open>\<open>group m n\<close> is \<open>m.group(n)\<close>, which is \<open>None\<close> for a group that took no part.\<close>

definition group :: "rmatch \<Rightarrow> nat \<Rightarrow> pyval" where
  "group m n = (case snd m n of None \<Rightarrow> PyNone | Some w \<Rightarrow> Str w)"



subsection \<open>Writing patterns\<close>

text \<open>\<open>seq\<close> concatenates; the empty pattern reads nothing.\<close>

fun seq :: "re list \<Rightarrow> re" where
  "seq [] = Rep Dot 0 (Some 0) True"
| "seq [r] = r"
| "seq (r # rs) = Cat r (seq rs)"

definition chr :: "char \<Rightarrow> re" where
  "chr c = Sym (One (Ch c))"

definition lit :: "string \<Rightarrow> re" where
  "lit s = seq (map chr s)"

definition AZ :: cls where
  "AZ = In [Rng CHR ''A'' CHR ''Z'']"

definition ws0 :: re where \<comment> \<open>\<open>\s*\<close>\<close>
  "ws0 = Rep (One Spc) 0 None True"

definition ws1 :: re where \<comment> \<open>\<open>\s+\<close>\<close>
  "ws1 = Rep (One Spc) 1 None True"

definition PS :: re where \<comment> \<open>\<open>[PS]\<close>\<close>
  "PS = Sym (In [Ch CHR ''P'', Ch CHR ''S''])"

definition date_re :: re where \<comment> \<open>\<open>\d{1,2}/\d{1,2}/\d{4}\<close>\<close>
  "date_re = seq [Rep (One Dgt) 1 (Some 2) True, chr CHR ''/'', Rep (One Dgt) 1 (Some 2) True,
                  chr CHR ''/'', Rep (One Dgt) 4 (Some 4) True]"

definition amount_re :: re where \<comment> \<open>\<open>\$[\d,]+(?:\s*-)?\<close>\<close>
  "amount_re = seq [chr CHR ''$'', Rep (In [Dgt, Ch CHR '','']) 1 None True,
                    Opt (seq [ws0, chr CHR ''-''])]"

definition number_re :: re where \<comment> \<open>\<open>[0-9,]+\<close>\<close>
  "number_re = Rep (In [Rng CHR ''0'' CHR ''9'', Ch CHR '','']) 1 None True"

section \<open>The parser (src/pdf_parser.py)\<close>

datatype TradeType = STOCK | OPTION_CALL | OPTION_PUT

fun type_value :: "TradeType \<Rightarrow> string" where
  "type_value STOCK = ''stock''"
| "type_value OPTION_CALL = ''option_call''"
| "type_value OPTION_PUT = ''option_put''"

text \<open>
  A trade is a Python dictionary with string keys: an association list in the order in
  which the dictionary literal lists its keys. \<open>map_of t key\<close> is \<open>None\<close> exactly when the
  key is missing.
\<close>

type_synonym trade = "(string \<times> pyval) list"

subsection \<open>The patterns of \<open>_is_trade_line\<close>\<close>

definition ptr_pattern1 :: re where
  "ptr_pattern1 = seq [Sym AZ, Rep Dot 0 None False, ws0, chr CHR ''('', Rep AZ 1 (Some 5) True,
     chr CHR '')'', ws0, PS, ws1, date_re, ws1, date_re, ws1, amount_re]"

definition ptr_pattern2 :: re where
  "ptr_pattern2 = seq [lit ''SP'', ws1, Sym AZ, Rep (NotIn [Ch CHR ''P'']) 0 None False, ws1, PS,
     Opt (seq [ws1, lit ''(partial)'']), ws1, date_re, ws1, date_re, ws1, amount_re]"

definition ptr_pattern3 :: re where
  "ptr_pattern3 = seq [lit ''SP'', ws1, Sym AZ, Rep (NotIn [Ch CHR ''P'']) 0 None False, ws1, PS,
     ws1, date_re, ws1, date_re, ws1, amount_re]"

definition action_keywords :: "string list" where
  "action_keywords = [''BUY'', ''SELL'', ''PURCHASE'', ''SALE'', ''ACQUIRED'', ''DISPOSED'']"

definition asset_indicators :: "string list" where
  "asset_indicators = [''INC'', ''CORP'', ''LLC'', ''ETF'', ''STOCK'', ''SHARES'']"

definition skip_keywords :: "string list" where
  "skip_keywords = [''DATE'', ''ASSET'', ''ACTION'', ''AMOUNT'', ''---'', ''TOTAL'', ''SUMMARY'']"

text \<open>\<open>any_in keywords s\<close> is \<open>any(keyword in s for keyword in keywords)\<close>.\<close>

definition any_in :: "string list \<Rightarrow> string \<Rightarrow> bool" where
  "any_in keywords s = list_ex (\<lambda>keyword. contains keyword s) keywords"

definition is_trade_line :: "string \<Rightarrow> bool" where
  "is_trade_line line =
     (let line_upper = upper line in
      if re_search ptr_pattern1 line \<noteq> None then True
      else if re_search ptr_pattern2 line \<noteq> None then True
      else if re_search ptr_pattern3 line \<noteq> None then True
      else
        let has_action = any_in action_keywords line_upper;
            has_asset = any_in asset_indicators line_upper;
            is_header = any_in skip_keywords line_upper
        in has_action \<and> has_asset \<and> \<not> is_header)"

subsection \<open>The patterns of \<open>_parse_ptr_trade_line\<close> and of the fallback\<close>

definition pattern :: re where
  "pattern = seq [Grp 1 (seq [Sym AZ, Rep Dot 0 None False]), ws0, chr CHR ''('',
     Grp 2 (Rep AZ 1 (Some 5) True), chr CHR '')'', ws0, Grp 3 PS, ws1, Grp 4 date_re, ws1,
     Grp 5 date_re, ws1, Grp 6 amount_re]"

definition pattern2 :: re where
  "pattern2 = seq [lit ''SP'', ws1, Grp 1 (seq [Sym AZ, Rep (NotIn [Ch CHR ''P'']) 0 None False]),
     ws1, Grp 2 PS, Opt (seq [ws1, lit ''(partial)'']), ws1, Grp 3 date_re, ws1, Grp 4 date_re,
     ws1, Grp 5 amount_re]"

definition pattern3 :: re where
  "pattern3 = seq [lit ''SP'', ws1, Grp 1 (seq [Sym AZ, Rep (NotIn [Ch CHR ''P'']) 0 None False]),
     ws1, Grp 2 PS, ws1, Grp 3 date_re, ws1, Grp 4 date_re, ws1, Grp 5 amount_re]"

definition dollar_re :: re where \<comment> \<open>\<open>(\$[\d,]+)\<close>\<close>
  "dollar_re = Grp 1 (seq [chr CHR ''$'', Rep (In [Dgt, Ch CHR '','']) 1 None True])"

definition ticker_re :: re where \<comment> \<open>\<open>\(([A-Z]{1,5})\)\<close>\<close>
  "ticker_re = seq [chr CHR ''('', Grp 1 (Rep AZ 1 (Some 5) True), chr CHR '')'']"

definition asset_re :: re where \<comment> \<open>\<open>\b([A-Z]{2,}(?:\s+[A-Z]{2,})*)\b\<close>\<close>
  "asset_re = seq [Bnd, Grp 1 (seq [Rep AZ 2 None True, Star (seq [ws1, Rep AZ 2 None True])]), Bnd]"

definition amount_pattern1 :: re where \<comment> \<open>\<open>\$([0-9,]+)-?\$?([0-9,]+)?\<close>\<close>
  "amount_pattern1 = seq [chr CHR ''$'', Grp 1 number_re, Rep (One (Ch CHR ''-'')) 0 (Some 1) True,
     Rep (One (Ch CHR ''$'')) 0 (Some 1) True, Opt (Grp 2 number_re)]"

definition over_re :: re where \<comment> \<open>\<open>Over\s+\$([0-9,]+)\<close>\<close>
  "over_re = seq [lit ''Over'', ws1, chr CHR ''$'', Grp 1 number_re]"

definition under_re :: re where \<comment> \<open>\<open>Under\s+\$([0-9,]+)\<close>\<close>
  "under_re = seq [lit ''Under'', ws1, chr CHR ''$'', Grp 1 number_re]"

definition to_re :: re where \<comment> \<open>\<open>\$([0-9,]+)\s+to\s+\$([0-9,]+)\<close>\<close>
  "to_re = seq [chr CHR ''$'', Grp 1 number_re, ws1, lit ''to'', ws1, chr CHR ''$'', Grp 2 number_re]"

definition date_search_re :: re where \<comment> \<open>\<open>\b(\d{1,2}/\d{1,2}/\d{4})\b\<close>\<close>
  "date_search_re = seq [Bnd, Grp 1 date_re, Bnd]"

subsection \<open>Context of a structural match\<close>

text \<open>The loop \<open>for i in ...: context_lines.append(all_lines[i])\<close>.\<close>

fun get_lines :: "string list \<Rightarrow> int list \<Rightarrow> py_error + string list" where
  "get_lines all_lines [] = Inr []"
| "get_lines all_lines (i # is) =
     (case py_index all_lines i of
        Inl e \<Rightarrow> Inl e
      | Inr l \<Rightarrow> (case get_lines all_lines is of Inl e \<Rightarrow> Inl e | Inr ls \<Rightarrow> Inr (l # ls)))"

definition option_keywords :: "string list" where
  "option_keywords = [''CALL'', ''PUT'', ''OPTION'', ''STRIKE'', ''EXPIRATION'']"

definition determine_trade_type_from_ptr_context :: "string list \<Rightarrow> int \<Rightarrow> py_error + TradeType" where
  "determine_trade_type_from_ptr_context all_lines line_index =
     (if all_lines = [] then Inr STOCK
      else
        case get_lines all_lines
               (py_range line_index (min (line_index + 5) (int (length all_lines)))) of
          Inl e \<Rightarrow> Inl e
        | Inr context_lines \<Rightarrow>
            let context_text = upper (join '' '' context_lines) in
            if any_in option_keywords context_text then
              (if contains ''CALL'' context_text then Inr OPTION_CALL
               else if contains ''PUT'' context_text then Inr OPTION_PUT
               else Inr OPTION_CALL)
            else Inr STOCK)"

text \<open>
  The loop of \<open>_extract_description_for_trade\<close>: the state is the list
  \<open>description_parts\<close> and the flag \<open>found_d_line\<close>; leaving the loop by \<open>break\<close> returns
  the parts collected so far.
\<close>

fun description_loop :: "string list \<Rightarrow> int list \<Rightarrow> string list \<Rightarrow> bool \<Rightarrow> py_error + string list" where
  "description_loop all_lines [] description_parts found_d_line = Inr description_parts"
| "description_loop all_lines (i # is) description_parts found_d_line =
     (case py_index all_lines i of
        Inl e \<Rightarrow> Inl e
      | Inr l \<Rightarrow>
          let line = strip l;
              cleaned_line = strip (replace_nul line)
          in
            if startswith cleaned_line ''D:'' then
              description_loop all_lines is
                (description_parts @ [strip (drop 2 cleaned_line)]) True
            else if found_d_line then
              (if startswith cleaned_line ''SP '' \<or> startswith cleaned_line ''L:''
               then Inr description_parts
               else description_loop all_lines is (description_parts @ [cleaned_line]) found_d_line)
            else if startswith cleaned_line ''SP '' then Inr description_parts
            else description_loop all_lines is description_parts found_d_line)"

definition extract_description_for_trade :: "string list \<Rightarrow> int \<Rightarrow> py_error + string" where
  "extract_description_for_trade all_lines line_index =
     (if all_lines = [] then Inr ''''
      else
        case description_loop all_lines
               (py_range (line_index + 1) (min (line_index + 10) (int (length all_lines)))) [] False of
          Inl e \<Rightarrow> Inl e
        | Inr description_parts \<Rightarrow> Inr (join '' '' description_parts))"

subsection \<open>\<open>_parse_ptr_trade_line\<close>\<close>

text \<open>
  A function of the source that can raise returns \<open>py_error + 'a\<close>, and \<open>bind\<close> runs the
  statements that follow a call only when the call returned. \<open>str_of v\<close> is the receiver of
  a string method, where \<open>None\<close> raises AttributeError; \<open>operand v\<close> is the right operand
  of a string concatenation, where \<open>None\<close> raises TypeError.
\<close>

definition bind :: "py_error + 'a \<Rightarrow> ('a \<Rightarrow> py_error + 'b) \<Rightarrow> py_error + 'b" where
  "bind m f = (case m of Inl e \<Rightarrow> Inl e | Inr x \<Rightarrow> f x)"

definition str_of :: "pyval \<Rightarrow> py_error + string" where
  "str_of v = (case v of PyNone \<Rightarrow> Inl AttributeError | Str s \<Rightarrow> Inr s)"

definition operand :: "pyval \<Rightarrow> py_error + string" where
  "operand v = (case v of PyNone \<Rightarrow> Inl TypeError | Str s \<Rightarrow> Inr s)"

text \<open>
  The three branches share these statements: the amount joined with the first dollar
  token of the next line, the action code turned into an action, the trade type with the
  description of an option trade, and the dictionary that is returned.
\<close>

definition complete_from_next :: "string \<Rightarrow> string \<Rightarrow> py_error + string" where
  "complete_from_next amount next_line =
     (case re_search dollar_re next_line of
        None \<Rightarrow> Inr (strip amount)
      | Some amount_match \<Rightarrow>
          bind (operand (group amount_match 1)) (\<lambda>g. Inr (strip amount @ '' '' @ g)))"

definition action_of :: "string \<Rightarrow> string" where
  "action_of action_code = (if upper action_code = ''P'' then ''BUY'' else ''SELL'')"

definition type_and_description :: "string list \<Rightarrow> int \<Rightarrow> py_error + (TradeType \<times> string)" where
  "type_and_description all_lines line_index =
     bind (determine_trade_type_from_ptr_context all_lines line_index) (\<lambda>trade_type.
       if trade_type = OPTION_CALL \<or> trade_type = OPTION_PUT then
         bind (extract_description_for_trade all_lines line_index) (\<lambda>description.
           Inr (trade_type, description))
       else Inr (trade_type, ''''))"

definition ptr_record ::
  "string \<Rightarrow> string \<Rightarrow> TradeType \<Rightarrow> string \<Rightarrow> string \<Rightarrow> string \<Rightarrow> string \<Rightarrow> string \<Rightarrow> string \<Rightarrow> trade" where
  "ptr_record asset_name ticker trade_type action complete_amount trans_date notif_date
       description line =
     [(''asset_name'', Str (strip asset_name)),
      (''ticker'', Str ticker),
      (''trade_type'', Str (type_value trade_type)),
      (''action'', Str action),
      (''amount_range'', Str complete_amount),
      (''transaction_date'', Str (strip trans_date)),
      (''notification_date'', Str (strip notif_date)),
      (''description'', Str description),
      (''raw_line'', Str (strip line))]"

text \<open>The test \<open>all_lines and line_index + 1 < len(all_lines)\<close>.\<close>

definition has_next_line :: "string list \<Rightarrow> int \<Rightarrow> bool" where
  "has_next_line all_lines line_index =
     (all_lines \<noteq> [] \<and> line_index + 1 < int (length all_lines))"

text \<open>The body of \<open>if match:\<close> (ticker on the same line).\<close>

definition ptr_branch1 :: "rmatch \<Rightarrow> string \<Rightarrow> string list \<Rightarrow> int \<Rightarrow> py_error + trade" where
  "ptr_branch1 match line all_lines line_index =
     bind (str_of (group match 1)) (\<lambda>asset_name.
     bind (str_of (group match 2)) (\<lambda>ticker.
     bind (str_of (group match 3)) (\<lambda>action_code.
     bind (str_of (group match 4)) (\<lambda>trans_date.
     bind (str_of (group match 5)) (\<lambda>notif_date.
     bind (str_of (group match 6)) (\<lambda>amount.
     bind (if endswith (strip amount) ''-'' \<and> has_next_line all_lines line_index
           then bind (py_index all_lines (line_index + 1)) (complete_from_next amount)
           else Inr (strip amount)) (\<lambda>complete_amount.
     bind (type_and_description all_lines line_index) (\<lambda>(trade_type, description).
       Inr (ptr_record asset_name (strip ticker) trade_type (action_of action_code)
              complete_amount trans_date notif_date description line)))))))))"

text \<open>
  The body of \<open>if match2 and all_lines and line_index + 1 < len(all_lines):\<close>; the result
  \<open>None\<close> means that the next line has no ticker and control falls through to the third
  pattern.
\<close>

definition ptr_branch2 :: "rmatch \<Rightarrow> string \<Rightarrow> string list \<Rightarrow> int \<Rightarrow> py_error + trade option" where
  "ptr_branch2 match2 line all_lines line_index =
     bind (py_index all_lines (line_index + 1)) (\<lambda>next_line.
       case re_search ticker_re next_line of
         None \<Rightarrow> Inr None
       | Some ticker_match \<Rightarrow>
           bind (str_of (group match2 1)) (\<lambda>asset_name.
           bind (str_of (group match2 2)) (\<lambda>action_code.
           bind (str_of (group match2 3)) (\<lambda>trans_date.
           bind (str_of (group match2 4)) (\<lambda>notif_date.
           bind (str_of (group match2 5)) (\<lambda>amount.
           bind (str_of (group ticker_match 1)) (\<lambda>ticker.
           bind (complete_from_next amount next_line) (\<lambda>complete_amount.
           bind (type_and_description all_lines line_index) (\<lambda>(trade_type, description).
             Inr (Some (ptr_record asset_name (strip ticker) trade_type (action_of action_code)
                          complete_amount trans_date notif_date description line)))))))))))"

text \<open>The body of \<open>if match3 and all_lines and line_index + 1 < len(all_lines):\<close>.\<close>

definition ptr_branch3 :: "rmatch \<Rightarrow> string \<Rightarrow> string list \<Rightarrow> int \<Rightarrow> py_error + trade" where
  "ptr_branch3 match3 line all_lines line_index =
     bind (str_of (group match3 1)) (\<lambda>asset_name.
     bind (str_of (group match3 2)) (\<lambda>action_code.
     bind (str_of (group match3 3)) (\<lambda>trans_date.
     bind (str_of (group match3 4)) (\<lambda>notif_date.
     bind (str_of (group match3 5)) (\<lambda>amount.
     bind (if contains '' - '' amount \<or> contains '' -$'' amount then Inr (strip amount)
           else bind (py_index all_lines (line_index + 1)) (complete_from_next amount))
          (\<lambda>complete_amount.
     bind (type_and_description all_lines line_index) (\<lambda>(trade_type, description).
       Inr (ptr_record asset_name ''N/A'' trade_type (action_of action_code)
              complete_amount trans_date notif_date description line))))))))"

definition parse_ptr_trade_line_body :: "string \<Rightarrow> string list \<Rightarrow> int \<Rightarrow> py_error + trade option" where
  "parse_ptr_trade_line_body line all_lines line_index =
     (case re_search pattern line of
        Some match \<Rightarrow> bind (ptr_branch1 match line all_lines line_index) (\<lambda>t. Inr (Some t))
      | None \<Rightarrow>
          bind (case re_search pattern2 line of
                  None \<Rightarrow> Inr None
                | Some match2 \<Rightarrow>
                    if has_next_line all_lines line_index
                    then ptr_branch2 match2 line all_lines line_index
                    else Inr None)
            (\<lambda>second.
               case second of
                 Some t \<Rightarrow> Inr (Some t)
               | None \<Rightarrow>
                   (case re_search pattern3 line of
                      None \<Rightarrow> Inr None
                    | Some match3 \<Rightarrow>
                        if has_next_line all_lines line_index
                        then bind (ptr_branch3 match3 line all_lines line_index) (\<lambda>t. Inr (Some t))
                        else Inr None)))"

text \<open>\<open>try: ... except Exception: return None\<close>.\<close>

definition parse_ptr_trade_line :: "string \<Rightarrow> string list \<Rightarrow> int \<Rightarrow> trade option" where
  "parse_ptr_trade_line line all_lines line_index =
     (case parse_ptr_trade_line_body line all_lines line_index of Inl e \<Rightarrow> None | Inr r \<Rightarrow> r)"

subsection \<open>The heuristic fallback\<close>

definition extract_action :: "string \<Rightarrow> string option" where
  "extract_action line =
     (let line_upper = upper line in
      if any_in [''BUY'', ''PURCHASE'', ''ACQUIRED'', ''ACQUISITION''] line_upper then Some ''BUY''
      else if any_in [''SELL'', ''SALE'', ''DISPOSED'', ''DISPOSAL''] line_upper then Some ''SELL''
      else None)"

text \<open>
  \<open>_extract_asset_and_type\<close>: an option line without a ticker in parentheses falls
  through to the stock pattern.
\<close>

definition extract_asset_and_type :: "string \<Rightarrow> py_error + (string \<times> pyval \<times> TradeType) option" where
  "extract_asset_and_type line =
     (let line_upper = upper line;
          option_result =
            (if contains ''CALL'' line_upper \<or> contains ''PUT'' line_upper then
               (let option_type = (if contains ''CALL'' line_upper then OPTION_CALL else OPTION_PUT) in
                case re_search ticker_re line of
                  None \<Rightarrow> None
                | Some ticker_match \<Rightarrow>
                    Some (strip (fst ticker_match), group ticker_match 1, option_type))
             else None)
      in case option_result of
           Some r \<Rightarrow> Inr (Some r)
         | None \<Rightarrow>
             (case re_search asset_re line of
                None \<Rightarrow> Inr None
              | Some asset_match \<Rightarrow>
                  bind (str_of (group asset_match 1)) (\<lambda>g.
                    let asset_name = strip g;
                        ticker = (case re_search ticker_re line of
                                    None \<Rightarrow> PyNone
                                  | Some ticker_match \<Rightarrow> group ticker_match 1)
                    in Inr (Some (asset_name, ticker, STOCK)))))"

text \<open>An f-string prints \<open>None\<close> as the word \<open>None\<close>.\<close>

definition fmt :: "pyval \<Rightarrow> string" where
  "fmt v = (case v of PyNone \<Rightarrow> ''None'' | Str s \<Rightarrow> s)"

definition truthy :: "pyval \<Rightarrow> bool" where
  "truthy v = (case v of PyNone \<Rightarrow> False | Str s \<Rightarrow> s \<noteq> [])"

definition extract_amount_range :: "string \<Rightarrow> string" where
  "extract_amount_range line =
     (case re_search amount_pattern1 line of
        Some amount_match \<Rightarrow>
          if truthy (group amount_match 2)
          then ''$'' @ fmt (group amount_match 1) @ ''-$'' @ fmt (group amount_match 2)
          else ''$'' @ fmt (group amount_match 1)
      | None \<Rightarrow>
      (case re_search over_re line of
         Some over_match \<Rightarrow> ''Over $'' @ fmt (group over_match 1)
       | None \<Rightarrow>
       (case re_search under_re line of
          Some under_match \<Rightarrow> ''Under $'' @ fmt (group under_match 1)
        | None \<Rightarrow>
        (case re_search to_re line of
           Some to_match \<Rightarrow> ''$'' @ fmt (group to_match 1) @ ''-$'' @ fmt (group to_match 2)
         | None \<Rightarrow> ''Unknown''))))"

text \<open>The loop over the nearby lines returns at the first line with a date.\<close>

fun nearby_date :: "string list \<Rightarrow> int list \<Rightarrow> py_error + pyval" where
  "nearby_date all_lines [] = Inr (Str ''Unknown'')"
| "nearby_date all_lines (i # is) =
     bind (py_index all_lines i) (\<lambda>nearby_line.
       case re_search date_search_re nearby_line of
         Some date_match \<Rightarrow> Inr (group date_match 1)
       | None \<Rightarrow> nearby_date all_lines is)"

definition extract_transaction_date :: "string \<Rightarrow> string list \<Rightarrow> int \<Rightarrow> py_error + pyval" where
  "extract_transaction_date line all_lines line_index =
     (case re_search date_search_re line of
        Some date_match \<Rightarrow> Inr (group date_match 1)
      | None \<Rightarrow>
          nearby_date all_lines
            (py_range (max 0 (line_index - 2)) (min (int (length all_lines)) (line_index + 3))))"

fun filing_date_loop :: "string list \<Rightarrow> pyval" where
  "filing_date_loop [] = Str ''Unknown''"
| "filing_date_loop (line # rest) =
     (if any_in [''FILING DATE'', ''DATE FILED'', ''REPORT DATE''] (upper line) then
        (case re_search date_search_re line of
           Some date_match \<Rightarrow> group date_match 1
         | None \<Rightarrow> filing_date_loop rest)
      else filing_date_loop rest)"

definition extract_filing_date :: "string list \<Rightarrow> pyval" where
  "extract_filing_date all_lines = filing_date_loop (take 10 all_lines)"

subsection \<open>\<open>_parse_trade_line\<close> and \<open>_parse_text_for_trades\<close>\<close>

definition heuristic_record ::
  "string \<Rightarrow> pyval \<Rightarrow> TradeType \<Rightarrow> string \<Rightarrow> string \<Rightarrow> pyval \<Rightarrow> pyval \<Rightarrow> string \<Rightarrow> trade" where
  "heuristic_record asset_name ticker trade_type action amount_range transaction_date
       filing_date line =
     [(''asset_name'', Str asset_name),
      (''ticker'', ticker),
      (''trade_type'', Str (type_value trade_type)),
      (''action'', Str action),
      (''amount_range'', Str amount_range),
      (''transaction_date'', transaction_date),
      (''filing_date'', filing_date),
      (''raw_line'', Str (strip line))]"

text \<open>A dictionary is true when it is not empty; \<open>None\<close> is false.\<close>

definition truthy_trade :: "trade option \<Rightarrow> bool" where
  "truthy_trade t = (case t of None \<Rightarrow> False | Some d \<Rightarrow> d \<noteq> [])"

definition parse_trade_line_body :: "string \<Rightarrow> string list \<Rightarrow> int \<Rightarrow> py_error + trade option" where
  "parse_trade_line_body line all_lines line_index =
     (let ptr_trade = parse_ptr_trade_line line all_lines line_index in
      if truthy_trade ptr_trade then Inr ptr_trade
      else
        case extract_action line of
          None \<Rightarrow> Inr None
        | Some action \<Rightarrow>
            bind (extract_asset_and_type line) (\<lambda>trade_info.
              case trade_info of
                None \<Rightarrow> Inr None
              | Some (asset_name, ticker, trade_type) \<Rightarrow>
                  let amount_range = extract_amount_range line in
                  bind (extract_transaction_date line all_lines line_index) (\<lambda>transaction_date.
                    let filing_date = extract_filing_date all_lines in
                    if asset_name \<noteq> [] \<and> length asset_name > 2 \<and> action \<noteq> [] then
                      Inr (Some (heuristic_record asset_name ticker trade_type action amount_range
                                   transaction_date filing_date line))
                    else Inr None)))"

definition parse_trade_line :: "string \<Rightarrow> string list \<Rightarrow> int \<Rightarrow> trade option" where
  "parse_trade_line line all_lines line_index =
     (case parse_trade_line_body line all_lines line_index of Inl e \<Rightarrow> None | Inr r \<Rightarrow> r)"

text \<open>The loop \<open>for i, line in enumerate(lines)\<close>, from position \<open>i\<close> on.\<close>

fun scan_lines :: "string list \<Rightarrow> nat \<Rightarrow> string list \<Rightarrow> trade list" where
  "scan_lines lines i [] = []"
| "scan_lines lines i (line # rest) =
     (if is_trade_line line then
        (case parse_trade_line line lines (int i) of
           None \<Rightarrow> scan_lines lines (Suc i) rest
         | Some trade \<Rightarrow>
             if trade \<noteq> [] then trade # scan_lines lines (Suc i) rest
             else scan_lines lines (Suc i) rest)
      else scan_lines lines (Suc i) rest)"

definition parse_text_for_trades :: "string \<Rightarrow> trade list" where
  "parse_text_for_trades text = (let lines = split_nl text in scan_lines lines 0 lines)"

section \<open>Notions used to state the properties\<close>

subsection \<open>Shapes of fields\<close>

text \<open>A ticker symbol: one to five upper-case letters \<open>A\<close> to \<open>Z\<close>.\<close>

definition is_ticker :: "string \<Rightarrow> bool" where
  "is_ticker t = (1 \<le> length t \<and> length t \<le> 5 \<and> list_all is_upper t)"

text \<open>
  A date token: one or two digits, a slash, one or two digits, a slash, four digits.
  \<open>date_layout a b s\<close> fixes the number of digits of the first two parts.
\<close>

definition digits :: "string \<Rightarrow> bool" where
  "digits s = list_all is_digit s"

definition date_layout :: "nat \<Rightarrow> nat \<Rightarrow> string \<Rightarrow> bool" where
  "date_layout a b s =
     (length s = a + b + 6 \<and> digits (take a s) \<and> s ! a = CHR ''/'' \<and>
      digits (take b (drop (a + 1) s)) \<and> s ! (a + b + 1) = CHR ''/'' \<and>
      digits (drop (a + b + 2) s))"

definition is_date_token :: "string \<Rightarrow> bool" where
  "is_date_token s = (date_layout 1 1 s \<or> date_layout 1 2 s \<or> date_layout 2 1 s \<or> date_layout 2 2 s)"

text \<open>Fields of an emitted dictionary.\<close>

definition date_field :: "trade \<Rightarrow> string \<Rightarrow> bool" where
  "date_field t key = (case map_of t key of Some (Str d) \<Rightarrow> is_date_token d | _ \<Rightarrow> False)"

definition date_or_unknown_field :: "trade \<Rightarrow> string \<Rightarrow> bool" where
  "date_or_unknown_field t key =
     (case map_of t key of Some (Str d) \<Rightarrow> is_date_token d \<or> d = ''Unknown'' | _ \<Rightarrow> False)"

text \<open>\<open>field r key\<close> reads a key of the result of the extractor, when there is one.\<close>

definition field :: "trade option \<Rightarrow> string \<Rightarrow> pyval option" where
  "field r key = (case r of None \<Rightarrow> None | Some t \<Rightarrow> map_of t key)"

text \<open>
  The ticker as the specification has it (the sentinel \<open>N/A\<close> or a ticker symbol), and the
  ticker as the parser emits it, where the fallback also yields Python's \<open>None\<close>.
\<close>

definition spec_ticker_ok :: "trade \<Rightarrow> bool" where
  "spec_ticker_ok t =
     (case map_of t ''ticker'' of Some (Str s) \<Rightarrow> s = ''N/A'' \<or> is_ticker s | _ \<Rightarrow> False)"

definition ticker_ok :: "trade \<Rightarrow> bool" where
  "ticker_ok t =
     (case map_of t ''ticker'' of
        Some (Str s) \<Rightarrow> s = ''N/A'' \<or> is_ticker s
      | Some PyNone \<Rightarrow> True
      | None \<Rightarrow> False)"

definition asset_name_ok :: "trade \<Rightarrow> bool" where
  "asset_name_ok t =
     (case map_of t ''asset_name'' of Some (Str a) \<Rightarrow> a \<noteq> [] \<and> strip a = a | _ \<Rightarrow> False)"

definition action_ok :: "trade \<Rightarrow> bool" where
  "action_ok t = (map_of t ''action'' = Some (Str ''BUY'') \<or> map_of t ''action'' = Some (Str ''SELL''))"

text \<open>
  The amount as the specification has it. \<open>amount_pattern_matched line\<close> says that one of
  the four amount patterns of the cascade matches the line. The amount of a record is
  \<open>Unknown\<close> only when none of them matches; an amount other than \<open>Unknown\<close> is not raw
  text: it is put together from the captured groups and begins with \<open>$\<close>, \<open>Over $\<close> or
  \<open>Under $\<close>.
\<close>

definition amount_pattern_matched :: "string \<Rightarrow> bool" where
  "amount_pattern_matched line =
     (re_search amount_pattern1 line \<noteq> None \<or> re_search over_re line \<noteq> None \<or>
      re_search under_re line \<noteq> None \<or> re_search to_re line \<noteq> None)"

definition amount_shape :: "string \<Rightarrow> bool" where
  "amount_shape a = (startswith a ''$'' \<or> startswith a ''Over $'' \<or> startswith a ''Under $'')"

definition amount_ok :: "string \<Rightarrow> trade \<Rightarrow> bool" where
  "amount_ok line t =
     (case map_of t ''amount_range'' of
        Some (Str a) \<Rightarrow> if a = ''Unknown'' then \<not> amount_pattern_matched line else amount_shape a
      | _ \<Rightarrow> False)"

text \<open>
  The three record invariants of the specification, for a record made from \<open>line\<close>: a
  non-empty, trimmed asset name and a known action; the ticker invariant; the amount
  invariant. \<open>valid_record\<close> is the same with the ticker the parser emits.
\<close>

definition spec_valid_record :: "string \<Rightarrow> trade \<Rightarrow> bool" where
  "spec_valid_record line t =
     (asset_name_ok t \<and> action_ok t \<and> spec_ticker_ok t \<and> amount_ok line t)"

definition valid_record :: "string \<Rightarrow> trade \<Rightarrow> bool" where
  "valid_record line t = (asset_name_ok t \<and> action_ok t \<and> ticker_ok t \<and> amount_ok line t)"

subsection \<open>The description of an option trade, said without the loop\<close>

text \<open>
  The lines that the scan looks at, for a line index that is not negative, and what the
  loop makes of each line before testing it.
\<close>

definition window :: "string list \<Rightarrow> nat \<Rightarrow> string list" where
  "window all_lines i = take 9 (drop (Suc i) all_lines)"

definition clean_line :: "string \<Rightarrow> string" where
  "clean_line l = strip (replace_nul (strip l))"

definition is_D :: "string \<Rightarrow> bool" where
  "is_D c = startswith c ''D:''"

definition stops :: "string \<Rightarrow> bool" where
  "stops c = (startswith c ''SP '' \<or> startswith c ''L:'')"

text \<open>
  The description as the specification words it: the remainder of the first \<open>D:\<close> line,
  then every following line as it is, up to the first line that starts with \<open>SP \<close> or
  \<open>L:\<close>. The trimming of each line is granted to it.
\<close>

definition description_claimed :: "string list \<Rightarrow> nat \<Rightarrow> string" where
  "description_claimed all_lines i =
     (case dropWhile (\<lambda>c. \<not> is_D c) (map clean_line (window all_lines i)) of
        [] \<Rightarrow> ''''
      | d # rest \<Rightarrow> join '' '' (strip (drop 2 d) # takeWhile (\<lambda>c. \<not> stops c) rest))"

text \<open>
  The description as the loop computes it: nothing when a line starting with \<open>SP \<close> comes
  before the first \<open>D:\<close> line; otherwise the lines from the first \<open>D:\<close> line up to the
  first later line that starts with \<open>SP \<close> or \<open>L:\<close> and not with \<open>D:\<close>, every \<open>D:\<close> line
  among them without its marker.
\<close>

definition description_block :: "string list \<Rightarrow> string list" where
  "description_block cleaned =
     (if list_ex (\<lambda>c. startswith c ''SP '') (takeWhile (\<lambda>c. \<not> is_D c) cleaned) then []
      else map (\<lambda>c. if is_D c then strip (drop 2 c) else c)
             (takeWhile (\<lambda>c. is_D c \<or> \<not> stops c) (dropWhile (\<lambda>c. \<not> is_D c) cleaned)))"

text \<open>The loop of \<open>_extract_description_for_trade\<close> once more, over the lines themselves.\<close>

fun scan_description :: "string list \<Rightarrow> string list \<Rightarrow> bool \<Rightarrow> string list" where
  "scan_description [] description_parts found_d_line = description_parts"
| "scan_description (l # ls) description_parts found_d_line =
     (let cleaned_line = clean_line l in
      if is_D cleaned_line then
        scan_description ls (description_parts @ [strip (drop 2 cleaned_line)]) True
      else if found_d_line then
        (if stops cleaned_line then description_parts
         else scan_description ls (description_parts @ [cleaned_line]) found_d_line)
      else if startswith cleaned_line ''SP '' then description_parts
      else scan_description ls description_parts found_d_line)"

subsection \<open>The words a pattern can read\<close>

text \<open>
  \<open>lang r\<close> holds every word that \<open>r\<close> can read (the word boundary reads nothing);
  \<open>glang r n\<close> holds every word that group \<open>n\<close> of \<open>r\<close> can capture; \<open>sets r n\<close> says that
  every match of \<open>r\<close> captures group \<open>n\<close>.
\<close>

inductive_set star :: "string set \<Rightarrow> string set" for A :: "string set" where
  star_nil: "[] \<in> star A"
| star_app: "u \<in> A \<Longrightarrow> v \<in> star A \<Longrightarrow> u @ v \<in> star A"

definition within :: "nat option \<Rightarrow> nat \<Rightarrow> bool" where
  "within hi n = (case hi of None \<Rightarrow> True | Some h \<Rightarrow> n \<le> h)"

fun lang :: "re \<Rightarrow> string set" where
  "lang (Sym c) = {[x] |x. cls_ok c x}"
| "lang (Cat a b) = {u @ v |u v. u \<in> lang a \<and> v \<in> lang b}"
| "lang (Rep c lo hi greedy) =
     {w. lo \<le> length w \<and> within hi (length w) \<and> list_all (cls_ok c) w}"
| "lang (Opt r) = insert [] (lang r)"
| "lang (Star r) = star (lang r)"
| "lang (Grp n r) = lang r"
| "lang Bnd = {[]}"

fun glang :: "re \<Rightarrow> nat \<Rightarrow> string set" where
  "glang (Sym c) n = {}"
| "glang (Cat a b) n = glang a n \<union> glang b n"
| "glang (Rep c lo hi greedy) n = {}"
| "glang (Opt r) n = glang r n"
| "glang (Star r) n = glang r n"
| "glang (Grp m r) n = (if m = n then lang r \<union> glang r n else glang r n)"
| "glang Bnd n = {}"

fun sets :: "re \<Rightarrow> nat \<Rightarrow> bool" where
  "sets (Cat a b) n = (sets a n \<or> sets b n)"
| "sets (Grp m r) n = (m = n \<or> sets r n)"
| "sets (Sym c) n = False"
| "sets (Rep c lo hi greedy) n = False"
| "sets (Opt r) n = False"
| "sets (Star r) n = False"
| "sets Bnd n = False"

section \<open>Properties of the matcher\<close>

text \<open>
  The equation of \<open>ms\<close> for a starred group mentions \<open>ms\<close> on the same pattern, so it is
  unfolded by hand.
\<close>

declare ms.simps(5) [simp del]

lemma ms_Star_cases:
  assumes "(p', s', k') \<in> set (ms (Star r) (p, s, k))"
  shows "(p', s', k') = (p, s, k) \<or>
         (\<exists>p1 s1 k1. (p1, s1, k1) \<in> set (ms r (p, s, k)) \<and> length s1 < length s \<and>
            (p', s', k') \<in> set (ms (Star r) (p1, s1, k1)))"
proof -
  define f where "f = (\<lambda>(p1, s1, k1). if length s1 < length s then ms (Star r) (p1, s1, k1) else [])"
  from assms have "(p', s', k') \<in> set (concat (map f (ms r (p, s, k))) @ [(p, s, k)])"
    unfolding f_def by (subst (asm) ms.simps(5))
  then consider "(p', s', k') = (p, s, k)" | x where "x \<in> set (ms r (p, s, k))" "(p', s', k') \<in> set (f x)"
    by (simp only: set_append set_concat set_map Un_iff UN_iff list.set insert_iff empty_iff bex_simps image_iff) blast
  then show ?thesis
  proof cases
    case 1
    then show ?thesis by (rule disjI1)
  next
    case 2
    obtain p1 s1 k1 where x: "x = (p1, s1, k1)" by (cases x) blast
    have l: "length s1 < length s"
    proof (rule ccontr)
      assume "\<not> length s1 < length s"
      then have "f x = []" unfolding f_def x by (simp only: prod.case if_False)
      with 2(2) show False by (simp only: list.set empty_iff)
    qed
    then have fx: "f x = ms (Star r) (p1, s1, k1)" unfolding f_def x by (simp only: prod.case if_True)
    have a: "(p1, s1, k1) \<in> set (ms r (p, s, k))" using 2(1) unfolding x .
    have b: "(p', s', k') \<in> set (ms (Star r) (p1, s1, k1))" using 2(2) unfolding fx .
    from a l b show ?thesis by (intro disjI2 exI conjI)
  qed
qed

lemma run_nth:
  "i < length (run c hi p s) \<Longrightarrow>
     \<exists>w. length w = i \<and> s = w @ snd (run c hi p s ! i) \<and> list_all (cls_ok c) w \<and> within hi i"
proof (induction s arbitrary: hi p i)
  case Nil
  then show ?case by (simp add: within_def split: option.splits)
next
  case (Cons x xs)
  show ?case
  proof (cases i)
    case 0
    then show ?thesis by (simp add: within_def split: option.splits)
  next
    case (Suc j)
    with Cons.prems have ok: "hi \<noteq> Some 0" "cls_ok c x"
      and j: "j < length (run c (map_option (\<lambda>n. n - 1) hi) (Some x) xs)"
      by (auto split: if_splits)
    from Cons.IH[OF j] obtain w where w: "length w = j"
      "xs = w @ snd (run c (map_option (\<lambda>n. n - 1) hi) (Some x) xs ! j)"
      "list_all (cls_ok c) w" "within (map_option (\<lambda>n. n - 1) hi) j" by blast
    have "within hi (Suc j)" using w(4) ok(1) by (cases hi) (auto simp: within_def)
    then show ?thesis using w ok Suc
      by (intro exI[of _ "x # w"]) auto
  qed
qed

lemma run_drop:
  assumes "(p', s') \<in> set (drop lo (run c hi p s))"
  shows "\<exists>w. s = w @ s' \<and> lo \<le> length w \<and> within hi (length w) \<and> list_all (cls_ok c) w"
proof -
  from assms obtain j where j: "j < length (drop lo (run c hi p s))"
    "drop lo (run c hi p s) ! j = (p', s')" by (auto simp: in_set_conv_nth)
  then have i: "lo + j < length (run c hi p s)" and e: "run c hi p s ! (lo + j) = (p', s')"
    by auto
  from run_nth[OF i] e show ?thesis by (metis le_add1 snd_conv)
qed

lemma ms_lang:
  "(p', s', k') \<in> set (ms r (p, s, k)) \<Longrightarrow> \<exists>w \<in> lang r. s = w @ s'"
proof (induction r "(p, s, k)" arbitrary: p s k p' s' k' rule: ms.induct)
  case (1 c p s k)
  then show ?case by (auto split: list.splits if_splits)
next
  case (2 a b)
  then show ?case by (fastforce)
next
  case (3 c lo hi greedy p s k)
  then have "(p', s') \<in> set (drop lo (run c hi p s))" by (auto split: if_splits)
  from run_drop[OF this] show ?case by auto
next
  case (4 r)
  then show ?case by auto
next
  case (5 r p s k)
  show ?case
  proof (cases "(p', s', k') = (p, s, k)")
    case True
    then have "s = [] @ s'" by simp
    moreover have "[] \<in> lang (Star r)" by (simp only: lang.simps star.star_nil)
    ultimately show ?thesis by (rule_tac x = "[]" in bexI)
  next
    case False
    with ms_Star_cases[OF 5(3)] obtain p1 s1 k1 where a: "(p1, s1, k1) \<in> set (ms r (p, s, k))"
      and l: "length s1 < length s"
      and b: "(p', s', k') \<in> set (ms (Star r) (p1, s1, k1))"
      by blast
    from 5(1)[OF a] obtain u where u: "u \<in> lang r" "s = u @ s1" by auto
    from 5(2)[OF a refl refl l b] obtain v where v: "v \<in> star (lang r)" "s1 = v @ s'" by auto
    have m: "u @ v \<in> lang (Star r)" using star.star_app[OF u(1) v(1)] by (simp only: lang.simps)
    have "s = (u @ v) @ s'" using u(2) v(2) by (simp only: append_assoc)
    with m show ?thesis by (rule_tac x = "u @ v" in bexI)
  qed
next
  case (6 n r p s k)
  then show ?case by auto
next
  case (7 p s k)
  then show ?case by (auto split: if_splits)
qed


lemma ms_keeps:
  "(p', s', k') \<in> set (ms r (p, s, k)) \<Longrightarrow> k n \<noteq> None \<Longrightarrow> k' n \<noteq> None"
proof (induction r "(p, s, k)" arbitrary: p s k p' s' k' rule: ms.induct)
  case (1 c p s k)
  then show ?case by (auto split: list.splits if_splits)
next
  case (2 a b)
  from 2(3) obtain x where x: "x \<in> set (ms a (p, s, k))" "(p', s', k') \<in> set (ms b x)"
    by auto
  obtain p1 s1 k1 where e: "x = (p1, s1, k1)" by (cases x) blast
  from 2(1)[OF x(1)[unfolded e] 2(4)] have "k1 n \<noteq> None" .
  from 2(2)[OF x(1)[unfolded e] x(2)[unfolded e] this] show ?case .
next
  case (3 c lo hi greedy p s k)
  then show ?case by (auto split: if_splits)
next
  case (4 r)
  then show ?case by auto
next
  case (5 r p s k)
  from ms_Star_cases[OF 5(3)] show ?case
  proof
    assume "(p', s', k') = (p, s, k)"
    with 5(4) show ?thesis by simp
  next
    assume "\<exists>p1 s1 k1. (p1, s1, k1) \<in> set (ms r (p, s, k)) \<and> length s1 < length s \<and>
            (p', s', k') \<in> set (ms (Star r) (p1, s1, k1))"
    then obtain p1 s1 k1 where a: "(p1, s1, k1) \<in> set (ms r (p, s, k))"
      and l: "length s1 < length s" and b: "(p', s', k') \<in> set (ms (Star r) (p1, s1, k1))"
      by blast
    from 5(1)[OF a 5(4)] have "k1 n \<noteq> None" .
    from 5(2)[OF a refl refl l b this] show ?thesis .
  qed
next
  case (6 m r p s k)
  then show ?case by auto
next
  case (7 p s k)
  then show ?case by (auto split: if_splits)
qed

lemma ms_sets:
  "(p', s', k') \<in> set (ms r (p, s, k)) \<Longrightarrow> sets r n \<Longrightarrow> k' n \<noteq> None"
proof (induction r arbitrary: p s k p' s' k')
  case (Cat a b)
  from Cat.prems(1) obtain x where x: "x \<in> set (ms a (p, s, k))" "(p', s', k') \<in> set (ms b x)"
    by auto
  obtain p1 s1 k1 where e: "x = (p1, s1, k1)" by (cases x) blast
  from Cat.prems(2) have "sets a n \<or> sets b n" by simp
  then show ?case
  proof
    assume "sets a n"
    from Cat.IH(1)[OF x(1)[unfolded e] this] have "k1 n \<noteq> None" .
    from ms_keeps[OF x(2)[unfolded e] this] show ?thesis .
  next
    assume "sets b n"
    from Cat.IH(2)[OF x(2)[unfolded e] this] show ?thesis .
  qed
next
  case (Grp m r)
  from Grp.prems(1) obtain k0 where k0: "(p', s', k0) \<in> set (ms r (p, s, k))"
    "k' = k0(m := Some (take (length s - length s') s))" by auto
  show ?case
  proof (cases "m = n")
    case True
    with k0(2) show ?thesis by simp
  next
    case False
    with Grp.prems(2) have "sets r n" by simp
    from Grp.IH[OF k0(1) this] k0(2) False show ?thesis by simp
  qed
qed simp_all

lemma ms_caps:
  "(p', s', k') \<in> set (ms r (p, s, k)) \<Longrightarrow> k' n = k n \<or> (\<exists>w \<in> glang r n. k' n = Some w)"
proof (induction r "(p, s, k)" arbitrary: p s k p' s' k' rule: ms.induct)
  case (1 c p s k)
  then show ?case by (auto split: list.splits if_splits)
next
  case (2 a b)
  from 2(3) obtain x where x: "x \<in> set (ms a (p, s, k))" "(p', s', k') \<in> set (ms b x)"
    by auto
  obtain p1 s1 k1 where e: "x = (p1, s1, k1)" by (cases x) blast
  from 2(1)[OF x(1)[unfolded e]] have A: "k1 n = k n \<or> (\<exists>w \<in> glang a n. k1 n = Some w)" .
  from 2(2)[OF x(1)[unfolded e] x(2)[unfolded e]] have B: "k' n = k1 n \<or> (\<exists>w \<in> glang b n. k' n = Some w)" .
  from A B show ?case by auto
next
  case (3 c lo hi greedy p s k)
  then show ?case by (auto split: if_splits)
next
  case (4 r)
  then show ?case by auto
next
  case (5 r p s k)
  from ms_Star_cases[OF 5(3)] show ?case
  proof
    assume "(p', s', k') = (p, s, k)"
    then show ?thesis by simp
  next
    assume "\<exists>p1 s1 k1. (p1, s1, k1) \<in> set (ms r (p, s, k)) \<and> length s1 < length s \<and>
            (p', s', k') \<in> set (ms (Star r) (p1, s1, k1))"
    then obtain p1 s1 k1 where a: "(p1, s1, k1) \<in> set (ms r (p, s, k))"
      and l: "length s1 < length s" and b: "(p', s', k') \<in> set (ms (Star r) (p1, s1, k1))"
      by blast
    from 5(1)[OF a] have A: "k1 n = k n \<or> (\<exists>w \<in> glang r n. k1 n = Some w)" .
    from 5(2)[OF a refl refl l b] have B: "k' n = k1 n \<or> (\<exists>w \<in> glang (Star r) n. k' n = Some w)" .
    from A B show ?thesis by auto
  qed
next
  case (6 m r p s k)
  from 6(2) obtain k0 where k0: "(p', s', k0) \<in> set (ms r (p, s, k))"
    "k' = k0(m := Some (take (length s - length s') s))" by auto
  from ms_lang[OF k0(1)] obtain w where w: "w \<in> lang r" "s = w @ s'" by blast
  then have t: "take (length s - length s') s = w" by simp
  from 6(1)[OF k0(1)] have A: "k0 n = k n \<or> (\<exists>w \<in> glang r n. k0 n = Some w)" .
  show ?case
  proof (cases "m = n")
    case True
    with k0(2) t w(1) show ?thesis by simp
  next
    case False
    with A k0(2) show ?thesis by simp
  qed
next
  case (7 p s k)
  then show ?case by (auto split: if_splits)
qed

lemma search_from_sound:
  "search_from r pre p s = Some (pre', k) \<Longrightarrow>
     \<exists>p0 s0 p' s'. (p', s', k) \<in> set (ms r (p0, s0, \<lambda>_. None))"
proof (induction s arbitrary: pre p)
  case Nil
  then show ?case by (auto split: list.splits) (metis list.set_intros(1))
next
  case (Cons x xs)
  show ?case
  proof (cases "ms r (p, x # xs, \<lambda>_. None)")
    case Nil
    with Cons.prems have "search_from r (pre @ [x]) (Some x) xs = Some (pre', k)" by simp
    from Cons.IH[OF this] show ?thesis .
  next
    case (Cons y ys)
    with Cons.prems have "\<exists>p' s'. y = (p', s', k)" by (auto split: prod.splits)
    with Cons show ?thesis by (metis list.set_intros(1))
  qed
qed

text \<open>What a successful search says about one group.\<close>

lemma re_search_group:
  assumes "re_search r s = Some m"
  shows "group m n = PyNone \<or> (\<exists>w \<in> glang r n. group m n = Str w)"
    and "sets r n \<Longrightarrow> \<exists>w \<in> glang r n. group m n = Str w"
proof -
  obtain pre k where m: "m = (pre, k)" by (cases m)
  from assms obtain p0 s0 p' s' where a: "(p', s', k) \<in> set (ms r (p0, s0, \<lambda>_. None))"
    unfolding re_search_def m using search_from_sound by blast
  from ms_caps[OF a, of n] have c: "k n = None \<or> (\<exists>w \<in> glang r n. k n = Some w)" by simp
  then show "group m n = PyNone \<or> (\<exists>w \<in> glang r n. group m n = Str w)"
    unfolding group_def m by auto
  assume "sets r n"
  from ms_sets[OF a this] c show "\<exists>w \<in> glang r n. group m n = Str w"
    unfolding group_def m by auto
qed

section \<open>Properties of the string functions and of the field shapes\<close>

lemma strip_id:
  assumes "s = [] \<or> (\<not> is_space (hd s) \<and> \<not> is_space (last s))"
  shows "strip s = s"
proof (cases "s = []")
  case True
  then show ?thesis by (simp add: strip_def)
next
  case False
  with assms have h: "\<not> is_space (hd s)" and l: "\<not> is_space (last s)" by auto
  from h False have a: "dropWhile is_space s = s" by (cases s) auto
  from l False have "\<not> is_space (hd (rev s))" by (simp add: hd_rev)
  with False have b: "dropWhile is_space (rev s) = rev s" by (cases "rev s") auto
  show ?thesis by (simp add: strip_def a b)
qed

lemma strip_no_space: "list_all (\<lambda>c. \<not> is_space c) s \<Longrightarrow> strip s = s"
proof (rule strip_id)
  assume a: "list_all (\<lambda>c. \<not> is_space c) s"
  show "s = [] \<or> (\<not> is_space (hd s) \<and> \<not> is_space (last s))"
  proof (cases "s = []")
    case True
    then show ?thesis by simp
  next
    case False
    then have "hd s \<in> set s" "last s \<in> set s" by simp_all
    with a show ?thesis by (auto simp add: list_all_iff)
  qed
qed

lemma hd_rev_dropWhile_rev:
  assumes "rev (dropWhile P (rev t)) \<noteq> []"
  shows "hd (rev (dropWhile P (rev t))) = hd t"
proof -
  have "rev (dropWhile P (rev t)) @ rev (takeWhile P (rev t)) =
        rev (takeWhile P (rev t) @ dropWhile P (rev t))"
    by (simp only: rev_append)
  also have "\<dots> = t" by (simp only: takeWhile_dropWhile_id rev_rev_ident)
  finally have "hd t = hd (rev (dropWhile P (rev t)) @ rev (takeWhile P (rev t)))" by simp
  with assms show ?thesis by simp
qed

lemma strip_ends:
  "strip s = [] \<or> (\<not> is_space (hd (strip s)) \<and> \<not> is_space (last (strip s)))"
proof (cases "strip s = []")
  case True
  then show ?thesis by simp
next
  case False
  define t where "t = dropWhile is_space s"
  have s: "strip s = rev (dropWhile is_space (rev t))" by (simp add: strip_def t_def)
  with False have n: "dropWhile is_space (rev t) \<noteq> []" by simp
  then have "\<not> is_space (hd (dropWhile is_space (rev t)))" by (rule hd_dropWhile)
  with n have l: "\<not> is_space (last (strip s))" by (simp add: s last_rev)
  from False s have "hd (strip s) = hd t" by (simp add: hd_rev_dropWhile_rev)
  moreover from False s have "t \<noteq> []" by auto
  then have "\<not> is_space (hd t)" unfolding t_def by (rule hd_dropWhile)
  ultimately show ?thesis using l by simp
qed

lemma strip_strip: "strip (strip s) = strip s"
  by (rule strip_id) (rule strip_ends)

lemma strip_nonempty:
  assumes "s \<noteq> []" and "\<not> is_space (hd s)"
  shows "strip s \<noteq> []"
proof -
  from assms have a: "dropWhile is_space s = s" by (cases s) auto
  have "dropWhile is_space (rev s) \<noteq> []"
  proof
    assume "dropWhile is_space (rev s) = []"
    then have "\<forall>c \<in> set (rev s). is_space c" by simp
    moreover from assms(1) have "hd s \<in> set (rev s)" by simp
    ultimately show False using assms(2) by blast
  qed
  then show ?thesis by (simp add: strip_def a)
qed

lemma code_A: "code CHR ''A'' = 65" and code_Z: "code CHR ''Z'' = 90"
  by (simp_all add: code_def)

lemma cls_ok_AZ: "cls_ok AZ c = is_upper c"
  by (simp add: AZ_def is_upper_def code_A code_Z Let_def)

lemma cls_ok_AZ_fun: "cls_ok AZ = is_upper"
  by (rule ext) (rule cls_ok_AZ)

lemma cls_ok_Dgt_fun: "cls_ok (One Dgt) = is_digit"
  by (rule ext) simp

lemma upper_not_space: "is_upper c \<Longrightarrow> \<not> is_space c"
  by (auto simp add: is_upper_def is_space_def Let_def)

lemma digit_not_space: "is_digit c \<Longrightarrow> \<not> is_space c"
  by (auto simp add: is_digit_def is_space_def Let_def)

lemma slash_not_space: "\<not> is_space CHR ''/''"
  by (simp add: is_space_def code_def)

lemma lang_ticker:
  assumes "w \<in> lang (Rep AZ 1 (Some 5) True)"
  shows "is_ticker w" and "strip w = w"
proof -
  from assms have l: "1 \<le> length w" "length w \<le> 5" and u: "list_all is_upper w"
    by (simp_all add: within_def cls_ok_AZ_fun)
  then show "is_ticker w" by (simp add: is_ticker_def)
  from u have "list_all (\<lambda>c. \<not> is_space c) w"
    by (auto simp add: list_all_iff upper_not_space)
  then show "strip w = w" by (rule strip_no_space)
qed

lemma date_layout_append:
  assumes "length m = a" "length d = b" "length y = 4" "digits m" "digits d" "digits y"
  shows "date_layout a b (m @ CHR ''/'' # d @ CHR ''/'' # y)"
  using assms by (simp add: date_layout_def nth_append)

lemma lang_date:
  assumes "w \<in> lang date_re"
  shows "is_date_token w" and "strip w = w"
proof -
  from assms obtain m d y where w: "w = m @ CHR ''/'' # d @ CHR ''/'' # y"
    and m: "1 \<le> length m" "length m \<le> 2" "digits m"
    and d: "1 \<le> length d" "length d \<le> 2" "digits d"
    and y: "length y = 4" "digits y"
    by (auto simp add: date_re_def chr_def within_def digits_def cls_ok_Dgt_fun)
  from m(1,2) d(1,2) have "(length m = 1 \<or> length m = 2) \<and> (length d = 1 \<or> length d = 2)"
    by auto
  with date_layout_append[OF refl refl y(1) m(3) d(3) y(2)]
  show "is_date_token w" unfolding is_date_token_def w by metis
  have "list_all (\<lambda>c. \<not> is_space c) w"
    using m(3) d(3) y(2)
    by (auto simp add: w digits_def list_all_iff digit_not_space slash_not_space)
  then show "strip w = w" by (rule strip_no_space)
qed

lemma lang_asset:
  assumes "w \<in> lang (seq [Sym AZ, Rep c 0 None False])"
  shows "strip w \<noteq> []"
proof -
  from assms obtain x v where "w = x # v" "is_upper x"
    by (auto simp add: cls_ok_AZ)
  then show ?thesis by (simp add: strip_nonempty upper_not_space)
qed

section \<open>What the patterns of the parser capture\<close>

lemma bind_Inr: "(bind m f = Inr y) = (\<exists>x. m = Inr x \<and> f x = Inr y)"
  by (cases m) (simp_all add: bind_def)

lemma bind_Inr_simp [simp]: "bind (Inr x) f = f x"
  by (simp add: bind_def)

lemma str_of_Str [simp]: "str_of (Str s) = Inr s"
  by (simp add: str_of_def)

lemma operand_Str [simp]: "operand (Str s) = Inr s"
  by (simp add: operand_def)

lemmas pattern_parts = ws0_def ws1_def chr_def lit_def PS_def date_re_def amount_re_def number_re_def

lemma strip_first:
  assumes "\<not> is_space c"
  shows "\<exists>r. strip (c # s) = c # r"
proof -
  from assms have 1: "strip (c # s) = rev (dropWhile is_space (rev s @ [c]))"
    by (simp add: strip_def)
  from assms have 2: "dropWhile is_space (rev s @ [c]) = dropWhile is_space (rev s) @ [c]"
    by (simp add: dropWhile_append3)
  have "strip (c # s) = c # rev (dropWhile is_space (rev s))" unfolding 1 2 by simp
  then show ?thesis by blast
qed

lemma lang_amount:
  assumes "w \<in> lang amount_re"
  shows "\<exists>r. strip w = CHR ''$'' # r"
proof -
  from assms obtain v where "w = CHR ''$'' # v"
    by (auto simp add: pattern_parts)
  moreover have "\<not> is_space CHR ''$''" by (simp add: is_space_def Let_def code_def)
  ultimately show ?thesis by (simp add: strip_first)
qed

lemma sets_pattern:
  "sets pattern 1" "sets pattern 2" "sets pattern 3" "sets pattern 4" "sets pattern 5" "sets pattern 6"
  by (simp_all add: pattern_def)

lemma glang_pattern:
  "glang pattern 1 = lang (seq [Sym AZ, Rep Dot 0 None False])"
  "glang pattern 2 = lang (Rep AZ 1 (Some 5) True)"
  "glang pattern 4 = lang date_re"
  "glang pattern 5 = lang date_re"
  "glang pattern 6 = lang amount_re"
  by (simp_all add: pattern_def pattern_parts)

lemma sets_pattern2:
  "sets pattern2 1" "sets pattern2 2" "sets pattern2 3" "sets pattern2 4" "sets pattern2 5"
  by (simp_all add: pattern2_def pattern_parts)

lemma glang_pattern2:
  "glang pattern2 1 = lang (seq [Sym AZ, Rep (NotIn [Ch CHR ''P'']) 0 None False])"
  "glang pattern2 3 = lang date_re"
  "glang pattern2 4 = lang date_re"
  "glang pattern2 5 = lang amount_re"
  by (simp_all add: pattern2_def pattern_parts)

lemma sets_pattern3:
  "sets pattern3 1" "sets pattern3 2" "sets pattern3 3" "sets pattern3 4" "sets pattern3 5"
  by (simp_all add: pattern3_def pattern_parts)

lemma glang_pattern3:
  "glang pattern3 1 = lang (seq [Sym AZ, Rep (NotIn [Ch CHR ''P'']) 0 None False])"
  "glang pattern3 3 = lang date_re"
  "glang pattern3 4 = lang date_re"
  "glang pattern3 5 = lang amount_re"
  by (simp_all add: pattern3_def pattern_parts)

lemma group_set:
  assumes "re_search r s = Some m" and "sets r n"
  obtains w where "group m n = Str w" and "w \<in> glang r n"
  using re_search_group(2)[OF assms] by blast

lemma ticker_re_group:
  assumes "re_search ticker_re s = Some m"
  obtains w where "group m 1 = Str w" and "is_ticker w" and "strip w = w"
proof -
  have "sets ticker_re 1" by (simp add: ticker_re_def chr_def)
  from group_set[OF assms this] obtain w where w: "group m 1 = Str w" "w \<in> glang ticker_re 1" .
  have "glang ticker_re 1 = lang (Rep AZ 1 (Some 5) True)"
    by (simp add: ticker_re_def chr_def)
  with w(2) have "w \<in> lang (Rep AZ 1 (Some 5) True)" by simp
  from w(1) lang_ticker[OF this] that show thesis by blast
qed

lemma date_search_group:
  assumes "re_search date_search_re s = Some m"
  obtains w where "group m 1 = Str w" and "is_date_token w"
proof -
  have "sets date_search_re 1" by (simp add: date_search_re_def)
  from group_set[OF assms this] obtain w where w: "group m 1 = Str w" "w \<in> glang date_search_re 1" .
  have "glang date_search_re 1 = lang date_re"
    by (simp add: date_search_re_def pattern_parts)
  with w(2) have "w \<in> lang date_re" by simp
  from w(1) lang_date(1)[OF this] that show thesis by blast
qed


lemma asset_re_group:
  assumes "re_search asset_re s = Some m"
  obtains w where "group m 1 = Str w"
proof -
  have "sets asset_re 1" by (simp add: asset_re_def)
  from group_set[OF assms this] that show thesis by blast
qed

section \<open>Properties of the parser\<close>

subsection \<open>Without a next line, and without a structural match\<close>

lemma has_next_line_last:
  "\<not> has_next_line all_lines (int (length all_lines) - 1)"
  by (simp add: has_next_line_def)

lemma parse_ptr_no_next:
  assumes "re_search pattern line = None" and "\<not> has_next_line all_lines line_index"
  shows "parse_ptr_trade_line line all_lines line_index = None"
  using assms
  by (simp add: parse_ptr_trade_line_def parse_ptr_trade_line_body_def bind_def
           split: option.splits)

lemma parse_trade_line_fallback:
  assumes "parse_ptr_trade_line line all_lines line_index = None"
    and "parse_trade_line line all_lines line_index \<noteq> None"
  shows "extract_action line \<noteq> None"
proof (cases "extract_action line")
  case None
  with assms show ?thesis
    by (simp add: parse_trade_line_def parse_trade_line_body_def truthy_trade_def)
next
  case (Some a)
  then show ?thesis by simp
qed

subsection \<open>The description loop\<close>

lemma py_range_nat: "py_range (int a) (int b) = map int [a..<b]"
proof (induction "b - a" arbitrary: a)
  case 0
  then show ?case by (simp add: py_range_def)
next
  case (Suc n)
  then have l: "a < b" and n: "n = b - Suc a" by auto
  from Suc.hyps(1)[OF n] have IH: "py_range (int (Suc a)) (int b) = map int [Suc a..<b]" .
  have "[int a..int b - 1] = int a # [int a + 1..int b - 1]"
    using l by (simp add: upto_rec1)
  with IH l show ?case
    by (simp add: py_range_def upt_conv_Cons add.commute)
qed

lemma py_index_nat: "a < length xs \<Longrightarrow> py_index xs (int a) = Inr (xs ! a)"
  by (simp add: py_index_def)

lemma description_loop_scan:
  "b \<le> length all_lines \<Longrightarrow>
   description_loop all_lines (map int [a..<b]) parts found =
     Inr (scan_description (take (b - a) (drop a all_lines)) parts found)"
proof (induction "b - a" arbitrary: a parts found)
  case 0
  then show ?case by simp
next
  case (Suc n)
  then have l: "a < b" and n: "n = b - Suc a" by auto
  from l Suc.prems have al: "a < length all_lines" by simp
  have u: "[a..<b] = a # [Suc a..<b]" using l by (simp add: upt_conv_Cons)
  have t: "take (b - a) (drop a all_lines) =
           all_lines ! a # take (b - Suc a) (drop (Suc a) all_lines)"
    using l al by (metis Cons_nth_drop_Suc Suc_diff_Suc take_Suc_Cons)
  note IH = Suc.hyps(1)[OF n Suc.prems]
  show ?case
    unfolding u t
    by (simp add: py_index_nat[OF al] IH Let_def clean_line_def is_D_def stops_def)
qed

lemma scan_description_found:
  "scan_description ls parts True =
     parts @ map (\<lambda>c. if is_D c then strip (drop 2 c) else c)
               (takeWhile (\<lambda>c. is_D c \<or> \<not> stops c) (map clean_line ls))"
  by (induction ls arbitrary: parts) (simp_all add: Let_def)

lemma scan_description_block:
  "scan_description ls parts False = parts @ description_block (map clean_line ls)"
proof (induction ls arbitrary: parts)
  case Nil
  then show ?case by (simp add: description_block_def)
next
  case (Cons l ls)
  show ?case
  proof (cases "is_D (clean_line l)")
    case True
    then show ?thesis
      by (simp add: Let_def scan_description_found description_block_def)
  next
    case False
    then show ?thesis
      using Cons.IH by (simp add: Let_def description_block_def)
  qed
qed

lemma window_take:
  "take (min (i + 10) (length all_lines) - Suc i) (drop (Suc i) all_lines) = window all_lines i"
  by (simp add: window_def min_def)

lemma extract_description_nat:
  "extract_description_for_trade all_lines (int i) =
     Inr (join '' '' (description_block (map clean_line (window all_lines i))))"
proof (cases "all_lines = []")
  case True
  then show ?thesis
    by (simp add: extract_description_for_trade_def window_def description_block_def)
next
  case False
  have r: "py_range (int i + 1) (min (int i + 10) (int (length all_lines))) =
           map int [Suc i..<min (i + 10) (length all_lines)]"
  proof -
    have "min (int i + 10) (int (length all_lines)) = int (min (i + 10) (length all_lines))"
      by (simp add: min_def)
    moreover have "int i + 1 = int (Suc i)" by simp
    ultimately show ?thesis by (simp only: py_range_nat)
  qed
  have "description_loop all_lines (map int [Suc i..<min (i + 10) (length all_lines)]) [] False =
        Inr (description_block (map clean_line (window all_lines i)))"
    by (simp add: description_loop_scan scan_description_block window_take)
  with False r show ?thesis
    by (simp add: extract_description_for_trade_def)
qed

subsection \<open>Records of the structural branches\<close>

lemma ptr_record_good:
  assumes "strip a \<noteq> []" and "tk = ''N/A'' \<or> is_ticker tk"
    and "is_date_token d1" "strip d1 = d1" "is_date_token d2" "strip d2 = d2"
    and "\<exists>r. amt = CHR ''$'' # r"
  shows "spec_valid_record line (ptr_record a tk tt (action_of ac) amt d1 d2 descr line) \<and>
         date_field (ptr_record a tk tt (action_of ac) amt d1 d2 descr line) ''transaction_date'' \<and>
         date_field (ptr_record a tk tt (action_of ac) amt d1 d2 descr line) ''notification_date''"
  using assms
  by (auto simp add: ptr_record_def spec_valid_record_def asset_name_ok_def action_ok_def
        spec_ticker_ok_def date_field_def strip_strip action_of_def amount_ok_def
        amount_shape_def startswith_def)

lemma complete_from_next_dollar:
  assumes "complete_from_next amt next_line = Inr ca" and "\<exists>r. strip amt = CHR ''$'' # r"
  shows "\<exists>r. ca = CHR ''$'' # r"
proof -
  from assms(2) obtain r where r: "strip amt = CHR ''$'' # r" by blast
  from assms(1) show ?thesis
    by (auto simp add: complete_from_next_def bind_Inr r split: option.splits)
qed

lemma ptr_record_nonempty: "ptr_record a tk tt act amt d1 d2 descr line \<noteq> []"
  by (simp add: ptr_record_def)

lemma ptr_branch1_good:
  assumes "re_search pattern line = Some m"
    and "ptr_branch1 m line all_lines i = Inr t"
  shows "spec_valid_record line t \<and> date_field t ''transaction_date'' \<and>
         date_field t ''notification_date'' \<and> t \<noteq> []"
proof -
  from group_set[OF assms(1) sets_pattern(1)] obtain a where
    a: "group m 1 = Str a" "a \<in> glang pattern 1" .
  from group_set[OF assms(1) sets_pattern(2)] obtain tk where
    tk: "group m 2 = Str tk" "tk \<in> glang pattern 2" .
  from group_set[OF assms(1) sets_pattern(3)] obtain ac where ac: "group m 3 = Str ac" .
  from group_set[OF assms(1) sets_pattern(4)] obtain d1 where
    d1: "group m 4 = Str d1" "d1 \<in> glang pattern 4" .
  from group_set[OF assms(1) sets_pattern(5)] obtain d2 where
    d2: "group m 5 = Str d2" "d2 \<in> glang pattern 5" .
  from group_set[OF assms(1) sets_pattern(6)] obtain amt where
    amt: "group m 6 = Str amt" "amt \<in> glang pattern 6" .
  from amt(2) have M: "\<exists>r. strip amt = CHR ''$'' # r" unfolding glang_pattern by (rule lang_amount)
  from a(2) have A: "strip a \<noteq> []" unfolding glang_pattern by (rule lang_asset)
  from tk(2) have T: "is_ticker tk" "strip tk = tk" unfolding glang_pattern by (rule lang_ticker)+
  from d1(2) have D1: "is_date_token d1" "strip d1 = d1" unfolding glang_pattern by (rule lang_date)+
  from d2(2) have D2: "is_date_token d2" "strip d2 = d2" unfolding glang_pattern by (rule lang_date)+
  from assms(2) obtain ca tt descr where
    t: "t = ptr_record a tk tt (action_of ac) ca d1 d2 descr line"
    and ca: "ca = strip amt \<or> (\<exists>next_line. complete_from_next amt next_line = Inr ca)"
    unfolding ptr_branch1_def
    using a(1) tk(1) ac d1(1) d2(1) amt(1) T(2) by (auto simp add: bind_Inr split: if_splits)
  from ca M complete_from_next_dollar have "\<exists>r. ca = CHR ''$'' # r" by blast
  from ptr_record_good[OF A disjI2[OF T(1)] D1 D2 this] ptr_record_nonempty t
  show ?thesis by simp
qed

lemma ptr_branch2_good:
  assumes "re_search pattern2 line = Some m"
    and "ptr_branch2 m line all_lines i = Inr (Some t)"
  shows "spec_valid_record line t \<and> date_field t ''transaction_date'' \<and>
         date_field t ''notification_date'' \<and> t \<noteq> []"
proof -
  from group_set[OF assms(1) sets_pattern2(1)] obtain a where
    a: "group m 1 = Str a" "a \<in> glang pattern2 1" .
  from group_set[OF assms(1) sets_pattern2(2)] obtain ac where ac: "group m 2 = Str ac" .
  from group_set[OF assms(1) sets_pattern2(3)] obtain d1 where
    d1: "group m 3 = Str d1" "d1 \<in> glang pattern2 3" .
  from group_set[OF assms(1) sets_pattern2(4)] obtain d2 where
    d2: "group m 4 = Str d2" "d2 \<in> glang pattern2 4" .
  from group_set[OF assms(1) sets_pattern2(5)] obtain amt where
    amt: "group m 5 = Str amt" "amt \<in> glang pattern2 5" .
  from amt(2) have M: "\<exists>r. strip amt = CHR ''$'' # r" unfolding glang_pattern2 by (rule lang_amount)
  from a(2) have A: "strip a \<noteq> []" unfolding glang_pattern2 by (rule lang_asset)
  from d1(2) have D1: "is_date_token d1" "strip d1 = d1" unfolding glang_pattern2 by (rule lang_date)+
  from d2(2) have D2: "is_date_token d2" "strip d2 = d2" unfolding glang_pattern2 by (rule lang_date)+
  from assms(2) obtain next_line tm where tm: "re_search ticker_re next_line = Some tm"
    and n: "bind (str_of (group tm 1)) (\<lambda>ticker.
           bind (complete_from_next amt next_line) (\<lambda>complete_amount.
           bind (type_and_description all_lines i) (\<lambda>(trade_type, description).
             Inr (Some (ptr_record a (strip ticker) trade_type (action_of ac)
                          complete_amount d1 d2 description line))))) = Inr (Some t)"
    unfolding ptr_branch2_def using a(1) ac d1(1) d2(1) amt(1)
    by (auto simp add: bind_Inr split: option.splits)
  from ticker_re_group[OF tm] obtain tk where T: "group tm 1 = Str tk" "is_ticker tk" "strip tk = tk" .
  from n obtain ca tt descr where
    t: "t = ptr_record a tk tt (action_of ac) ca d1 d2 descr line"
    and ca: "complete_from_next amt next_line = Inr ca"
    using T(1) T(3) by (auto simp add: bind_Inr)
  from complete_from_next_dollar[OF ca M]
       ptr_record_good[OF A disjI2[OF T(2)] D1 D2] ptr_record_nonempty t
  show ?thesis by simp
qed

lemma ptr_branch3_good:
  assumes "re_search pattern3 line = Some m"
    and "ptr_branch3 m line all_lines i = Inr t"
  shows "spec_valid_record line t \<and> date_field t ''transaction_date'' \<and>
         date_field t ''notification_date'' \<and> t \<noteq> []"
proof -
  from group_set[OF assms(1) sets_pattern3(1)] obtain a where
    a: "group m 1 = Str a" "a \<in> glang pattern3 1" .
  from group_set[OF assms(1) sets_pattern3(2)] obtain ac where ac: "group m 2 = Str ac" .
  from group_set[OF assms(1) sets_pattern3(3)] obtain d1 where
    d1: "group m 3 = Str d1" "d1 \<in> glang pattern3 3" .
  from group_set[OF assms(1) sets_pattern3(4)] obtain d2 where
    d2: "group m 4 = Str d2" "d2 \<in> glang pattern3 4" .
  from group_set[OF assms(1) sets_pattern3(5)] obtain amt where
    amt: "group m 5 = Str amt" "amt \<in> glang pattern3 5" .
  from amt(2) have M: "\<exists>r. strip amt = CHR ''$'' # r" unfolding glang_pattern3 by (rule lang_amount)
  from a(2) have A: "strip a \<noteq> []" unfolding glang_pattern3 by (rule lang_asset)
  from d1(2) have D1: "is_date_token d1" "strip d1 = d1" unfolding glang_pattern3 by (rule lang_date)+
  from d2(2) have D2: "is_date_token d2" "strip d2 = d2" unfolding glang_pattern3 by (rule lang_date)+
  from assms(2) obtain ca tt descr where
    t: "t = ptr_record a ''N/A'' tt (action_of ac) ca d1 d2 descr line"
    and ca: "ca = strip amt \<or> (\<exists>next_line. complete_from_next amt next_line = Inr ca)"
    unfolding ptr_branch3_def
    using a(1) ac d1(1) d2(1) amt(1)
    by (auto simp add: bind_Inr simp del: contains.simps split: if_splits)
  from ca M complete_from_next_dollar have "\<exists>r. ca = CHR ''$'' # r" by blast
  from ptr_record_good[OF A disjI1[OF refl] D1 D2 this] ptr_record_nonempty t
  show ?thesis by simp
qed

lemma parse_ptr_Some:
  assumes "parse_ptr_trade_line line all_lines i = Some t"
  shows "spec_valid_record line t \<and> date_field t ''transaction_date'' \<and>
         date_field t ''notification_date'' \<and> t \<noteq> []"
proof -
  from assms have b: "parse_ptr_trade_line_body line all_lines i = Inr (Some t)"
    by (simp add: parse_ptr_trade_line_def split: sum.splits)
  show ?thesis
  proof (cases "re_search pattern line")
    case (Some m)
    with b have "ptr_branch1 m line all_lines i = Inr t"
      by (auto simp add: parse_ptr_trade_line_body_def bind_Inr)
    from ptr_branch1_good[OF Some this] show ?thesis .
  next
    case None
    from b[unfolded parse_ptr_trade_line_body_def] obtain second where
      s: "(case re_search pattern2 line of
             None \<Rightarrow> Inr None
           | Some match2 \<Rightarrow>
               if has_next_line all_lines i
               then ptr_branch2 match2 line all_lines i
               else Inr None) = Inr second"
      and r: "(case second of
                 Some t \<Rightarrow> Inr (Some t)
               | None \<Rightarrow>
                   (case re_search pattern3 line of
                      None \<Rightarrow> Inr None
                    | Some match3 \<Rightarrow>
                        if has_next_line all_lines i
                        then bind (ptr_branch3 match3 line all_lines i) (\<lambda>t. Inr (Some t))
                        else Inr None)) = Inr (Some t)"
      by (auto simp add: None bind_Inr)
    show ?thesis
    proof (cases second)
      case (Some t')
      with r have e: "t' = t" by simp
      from s Some e obtain m2 where m2: "re_search pattern2 line = Some m2"
        and "ptr_branch2 m2 line all_lines i = Inr (Some t)"
        by (auto split: option.splits if_splits)
      from ptr_branch2_good[OF this] show ?thesis .
    next
      case None
      with r obtain m3 where m3: "re_search pattern3 line = Some m3"
        and "ptr_branch3 m3 line all_lines i = Inr t"
        by (auto simp add: bind_Inr split: option.splits if_splits)
      from ptr_branch3_good[OF this] show ?thesis .
    qed
  qed
qed

subsection \<open>Records of the fallback\<close>

lemma extract_action_values:
  "extract_action line = Some action \<Longrightarrow> action = ''BUY'' \<or> action = ''SELL''"
  by (auto simp add: extract_action_def Let_def split: if_splits)

lemma extract_asset_and_type_shape:
  shows "\<exists>r. extract_asset_and_type line = Inr r"
    and "extract_asset_and_type line = Inr (Some (a, tk, tt)) \<Longrightarrow>
           strip a = a \<and> (tk = PyNone \<or> (\<exists>s. tk = Str s \<and> is_ticker s))"
proof -
  define is_option where
    "is_option = (contains ''CALL'' (upper line) \<or> contains ''PUT'' (upper line))"
  define option_type where
    "option_type = (if contains ''CALL'' (upper line) then OPTION_CALL else OPTION_PUT)"
  have tick: "tk' = PyNone \<or> (\<exists>s. tk' = Str s \<and> is_ticker s)"
    if "tk' = (case re_search ticker_re line of None \<Rightarrow> PyNone | Some tm \<Rightarrow> group tm 1)" for tk'
  proof (cases "re_search ticker_re line")
    case None
    with that show ?thesis by simp
  next
    case (Some tm)
    from ticker_re_group[OF Some] that Some show ?thesis by auto
  qed
  have stock: "(\<exists>r. X = Inr r) \<and>
      (X = Inr (Some (a, tk, tt)) \<longrightarrow> strip a = a \<and> (tk = PyNone \<or> (\<exists>s. tk = Str s \<and> is_ticker s)))"
    if "X = (case re_search asset_re line of
                None \<Rightarrow> Inr None
              | Some asset_match \<Rightarrow>
                  bind (str_of (group asset_match 1)) (\<lambda>g.
                    let asset_name = strip g;
                        ticker = (case re_search ticker_re line of
                                    None \<Rightarrow> PyNone
                                  | Some ticker_match \<Rightarrow> group ticker_match 1)
                    in Inr (Some (asset_name, ticker, STOCK))))" for X
  proof (cases "re_search asset_re line")
    case None
    with that show ?thesis by simp
  next
    case (Some am)
    from asset_re_group[OF Some] obtain g where g: "group am 1 = Str g" .
    from that Some g have "X = Inr (Some (strip g,
        (case re_search ticker_re line of None \<Rightarrow> PyNone | Some tm \<Rightarrow> group tm 1), STOCK))"
      by (simp add: Let_def)
    with tick[OF refl] show ?thesis by (auto simp add: strip_strip)
  qed
  have both: "(\<exists>r. extract_asset_and_type line = Inr r) \<and>
      (extract_asset_and_type line = Inr (Some (a, tk, tt)) \<longrightarrow>
         strip a = a \<and> (tk = PyNone \<or> (\<exists>s. tk = Str s \<and> is_ticker s)))"
  proof (cases "is_option \<and> re_search ticker_re line \<noteq> None")
    case True
    then obtain tm where tm: "re_search ticker_re line = Some tm" by auto
    from ticker_re_group[OF tm] obtain w where w: "group tm 1 = Str w" "is_ticker w" by blast
    from True tm have "extract_asset_and_type line =
        Inr (Some (strip (fst tm), group tm 1, option_type))"
      unfolding extract_asset_and_type_def is_option_def option_type_def
      by (simp add: Let_def)
    with w show ?thesis by (auto simp add: strip_strip)
  next
    case False
    then have "extract_asset_and_type line =
        (case re_search asset_re line of
                None \<Rightarrow> Inr None
              | Some asset_match \<Rightarrow>
                  bind (str_of (group asset_match 1)) (\<lambda>g.
                    let asset_name = strip g;
                        ticker = (case re_search ticker_re line of
                                    None \<Rightarrow> PyNone
                                  | Some ticker_match \<Rightarrow> group ticker_match 1)
                    in Inr (Some (asset_name, ticker, STOCK))))"
    proof (cases is_option)
      case True
      with False have "re_search ticker_re line = None"
        by (cases "re_search ticker_re line") simp_all
      then show ?thesis
        unfolding extract_asset_and_type_def by (simp add: Let_def)
    next
      case False
      then show ?thesis
        unfolding extract_asset_and_type_def is_option_def by (simp add: Let_def)
    qed
    from stock[OF this] show ?thesis .
  qed
  from both show "\<exists>r. extract_asset_and_type line = Inr r" by blast
  assume "extract_asset_and_type line = Inr (Some (a, tk, tt))"
  with both show "strip a = a \<and> (tk = PyNone \<or> (\<exists>s. tk = Str s \<and> is_ticker s))" by blast
qed

lemma nearby_date_ok:
  assumes "\<forall>j \<in> set js. 0 \<le> j \<and> j < int (length all_lines)"
  shows "\<exists>d. nearby_date all_lines js = Inr (Str d) \<and> (is_date_token d \<or> d = ''Unknown'')"
  using assms
proof (induction js)
  case Nil
  then show ?case by simp
next
  case (Cons j js)
  then have j: "0 \<le> j" "j < int (length all_lines)" by simp_all
  then have i: "py_index all_lines j = Inr (all_lines ! nat j)" by (simp add: py_index_def)
  show ?case
  proof (cases "re_search date_search_re (all_lines ! nat j)")
    case None
    with Cons i show ?thesis by simp
  next
    case (Some m)
    from date_search_group[OF Some] obtain w where "group m 1 = Str w" "is_date_token w" .
    with Some i show ?thesis by simp
  qed
qed

lemma extract_transaction_date_ok:
  "\<exists>d. extract_transaction_date line all_lines i = Inr (Str d) \<and>
        (is_date_token d \<or> d = ''Unknown'')"
proof (cases "re_search date_search_re line")
  case None
  have "\<forall>j \<in> set (py_range (max 0 (i - 2)) (min (int (length all_lines)) (i + 3))).
          0 \<le> j \<and> j < int (length all_lines)"
    by (auto simp add: py_range_def)
  from nearby_date_ok[OF this] None show ?thesis
    by (simp add: extract_transaction_date_def)
next
  case (Some m)
  from date_search_group[OF Some] obtain w where "group m 1 = Str w" "is_date_token w" .
  with Some show ?thesis by (simp add: extract_transaction_date_def)
qed

lemma filing_date_loop_ok:
  "\<exists>d. filing_date_loop ls = Str d \<and> (is_date_token d \<or> d = ''Unknown'')"
proof (induction ls)
  case Nil
  then show ?case by simp
next
  case (Cons l ls)
  show ?case
  proof (cases "re_search date_search_re l")
    case None
    with Cons show ?thesis by simp
  next
    case (Some m)
    from date_search_group[OF Some] obtain w where "group m 1 = Str w" "is_date_token w" .
    with Some Cons show ?thesis by simp
  qed
qed

lemma extract_amount_range_ok:
  "if extract_amount_range line = ''Unknown'' then \<not> amount_pattern_matched line
   else amount_shape (extract_amount_range line)"
  by (auto simp add: extract_amount_range_def amount_pattern_matched_def amount_shape_def
        startswith_def split: option.splits)

lemma heuristic_record_good:
  assumes "a \<noteq> []" "strip a = a" "act = ''BUY'' \<or> act = ''SELL''"
    and "tk = PyNone \<or> (\<exists>s. tk = Str s \<and> is_ticker s)"
    and "is_date_token d \<or> d = ''Unknown''" "is_date_token f \<or> f = ''Unknown''"
    and "if amt = ''Unknown'' then \<not> amount_pattern_matched line else amount_shape amt"
  shows "valid_record line (heuristic_record a tk tt act amt (Str d) (Str f) line) \<and>
         date_or_unknown_field (heuristic_record a tk tt act amt (Str d) (Str f) line) ''transaction_date'' \<and>
         date_or_unknown_field (heuristic_record a tk tt act amt (Str d) (Str f) line) ''filing_date'' \<and>
         map_of (heuristic_record a tk tt act amt (Str d) (Str f) line) ''notification_date'' = None"
  using assms
  by (auto simp add: heuristic_record_def valid_record_def asset_name_ok_def action_ok_def
        ticker_ok_def date_or_unknown_field_def amount_ok_def)

lemma parse_trade_line_body_cases:
  "(\<exists>t. parse_ptr_trade_line line all_lines i = Some t \<and>
        parse_trade_line_body line all_lines i = Inr (Some t)) \<or>
   (parse_ptr_trade_line line all_lines i = None \<and>
    (parse_trade_line_body line all_lines i = Inr None \<or>
     (\<exists>t. parse_trade_line_body line all_lines i = Inr (Some t) \<and>
        valid_record line t \<and> date_or_unknown_field t ''transaction_date'' \<and>
        date_or_unknown_field t ''filing_date'' \<and> map_of t ''notification_date'' = None)))"
proof (cases "parse_ptr_trade_line line all_lines i")
  case (Some t)
  from parse_ptr_Some[OF Some] have "t \<noteq> []" by simp
  with Some show ?thesis
    by (simp add: parse_trade_line_body_def truthy_trade_def)
next
  case None
  show ?thesis
  proof (cases "extract_action line")
    case n: None
    with None show ?thesis by (simp add: parse_trade_line_body_def truthy_trade_def)
  next
    case (Some action)
    from extract_asset_and_type_shape(1) obtain info where
      info: "extract_asset_and_type line = Inr info" by blast
    from extract_transaction_date_ok obtain d where
      d: "extract_transaction_date line all_lines i = Inr (Str d)"
         "is_date_token d \<or> d = ''Unknown''" by blast
    from filing_date_loop_ok obtain f where
      f: "extract_filing_date all_lines = Str f" "is_date_token f \<or> f = ''Unknown''"
      unfolding extract_filing_date_def by blast
    show ?thesis
    proof (cases info)
      case n: None
      with None Some info show ?thesis
        by (simp add: parse_trade_line_body_def truthy_trade_def)
    next
      case s: (Some triple)
      obtain a tk tt where triple: "triple = (a, tk, tt)" by (cases triple)
      from extract_asset_and_type_shape(2)[OF info[unfolded s triple]]
      have p: "strip a = a" "tk = PyNone \<or> (\<exists>s. tk = Str s \<and> is_ticker s)" by simp_all
      show ?thesis
      proof (cases "a \<noteq> [] \<and> length a > 2 \<and> action \<noteq> []")
        case True
        then have "a \<noteq> []" by simp
        from heuristic_record_good[OF this p(1) extract_action_values[OF Some] p(2) d(2) f(2)
               extract_amount_range_ok]
        show ?thesis using None Some info s triple d(1) f(1) True
          by (simp add: parse_trade_line_body_def truthy_trade_def Let_def)
      next
        case False
        then show ?thesis using None Some info s triple d(1) f(1)
          by (auto simp add: parse_trade_line_body_def truthy_trade_def Let_def)
      qed
    qed
  qed
qed

subsection \<open>Both paths\<close>

lemma date_field_or_unknown: "date_field t key \<Longrightarrow> date_or_unknown_field t key"
  by (auto simp add: date_field_def date_or_unknown_field_def split: option.splits pyval.splits)

lemma spec_ticker_ok_ticker_ok: "spec_ticker_ok t \<Longrightarrow> ticker_ok t"
  by (auto simp add: spec_ticker_ok_def ticker_ok_def split: option.splits pyval.splits)

lemma spec_valid_record_valid: "spec_valid_record line t \<Longrightarrow> valid_record line t"
  by (simp add: spec_valid_record_def valid_record_def spec_ticker_ok_ticker_ok)

lemma parse_trade_line_cases:
  assumes "parse_trade_line line all_lines i = Some t"
  shows "(parse_ptr_trade_line line all_lines i = Some t \<and> spec_valid_record line t \<and>
          date_field t ''transaction_date'' \<and> date_field t ''notification_date'') \<or>
         (parse_ptr_trade_line line all_lines i = None \<and> valid_record line t \<and>
          date_or_unknown_field t ''transaction_date'' \<and>
          date_or_unknown_field t ''filing_date'' \<and> map_of t ''notification_date'' = None)"
proof -
  from parse_trade_line_body_cases[of line all_lines i] show ?thesis
  proof
    assume "\<exists>t. parse_ptr_trade_line line all_lines i = Some t \<and>
        parse_trade_line_body line all_lines i = Inr (Some t)"
    then obtain t' where t': "parse_ptr_trade_line line all_lines i = Some t'"
      "parse_trade_line_body line all_lines i = Inr (Some t')" by blast
    with assms have "t' = t" by (simp add: parse_trade_line_def)
    with t'(1) parse_ptr_Some[OF t'(1)] show ?thesis by simp
  next
    assume a: "parse_ptr_trade_line line all_lines i = None \<and>
      (parse_trade_line_body line all_lines i = Inr None \<or>
       (\<exists>t. parse_trade_line_body line all_lines i = Inr (Some t) \<and>
          valid_record line t \<and> date_or_unknown_field t ''transaction_date'' \<and>
          date_or_unknown_field t ''filing_date'' \<and> map_of t ''notification_date'' = None))"
    with assms show ?thesis by (auto simp add: parse_trade_line_def)
  qed
qed

lemma parse_trade_line_body_total: "\<exists>r. parse_trade_line_body line all_lines i = Inr r"
  using parse_trade_line_body_cases[of line all_lines i] by blast

subsection \<open>A structural match on a line that has a next line\<close>












section \<open>The claims\<close>

subsection \<open>C1: completion of a split amount on a line without ticker\<close>

text \<open>
  C1: the line \<open>SP ACME CORP P 01/02/2024 01/10/2024 $15,001 -\<close> followed by the line
  \<open>[OT] $50,000\<close> should give one record, with the amount \<open>$15,001 - $50,000\<close>. The
  engine gives no record for it. The asset name of the two \<open>SP\<close> patterns is
  \<open>[A-Z][^P]*?\<close>, which reads no upper-case \<open>P\<close> after the first letter, so that the
  \<open>P\<close> of \<open>CORP\<close> ends the name and no action code follows it; the line is not even a
  candidate. The single-line pattern has \<open>[A-Z].*?\<close> in that place and reads the same
  name: with a ticker on the line, \<open>ACME CORP (ACME) P 01/02/2024 01/10/2024 $15,001 -\<close>
  followed by \<open>[OT] $50,000\<close> gives the asset name \<open>ACME CORP\<close> and the amount
  \<open>$15,001 - $50,000\<close>.
\<close>

theorem C1_record_is_lost:
  "parse_text_for_trades
     (''SP ACME CORP P 01/02/2024 01/10/2024 $15,001 -'' @ [CHR 0x0A] @ ''[OT] $50,000'') = [] \<and>
   is_trade_line ''SP ACME CORP P 01/02/2024 01/10/2024 $15,001 -'' = False \<and>
   map (\<lambda>t. (map_of t ''asset_name'', map_of t ''amount_range''))
     (parse_text_for_trades
        (''ACME CORP (ACME) P 01/02/2024 01/10/2024 $15,001 -'' @ [CHR 0x0A] @ ''[OT] $50,000'')) =
   [(Some (Str ''ACME CORP''), Some (Str ''$15,001 - $50,000''))]"
  by code_simp

subsection \<open>C2: the single-line full form\<close>

text \<open>
  C2: the single line \<open>AMAZON.COM INC (AMZN) S 02/01/2024 02/03/2024 $50,001-$100,000\<close>
  should give the asset name \<open>AMAZON.COM INC\<close>, the ticker \<open>AMZN\<close>, the action \<open>SELL\<close>
  and the amount \<open>$50,001-$100,000\<close>. The amount group of the pattern is
  \<open>\$[\d,]+(?:\s*-)?\<close>: it stops after the dash, the upper bound on the line is never
  read, and the record has the amount \<open>$50,001-\<close>. The other three fields are as
  expected.
\<close>

theorem C2_amount_is_truncated:
  "parse_trade_line ''AMAZON.COM INC (AMZN) S 02/01/2024 02/03/2024 $50,001-$100,000''
     [''AMAZON.COM INC (AMZN) S 02/01/2024 02/03/2024 $50,001-$100,000''] 0 =
   Some [(''asset_name'', Str ''AMAZON.COM INC''),
         (''ticker'', Str ''AMZN''),
         (''trade_type'', Str ''stock''),
         (''action'', Str ''SELL''),
         (''amount_range'', Str ''$50,001-''),
         (''transaction_date'', Str ''02/01/2024''),
         (''notification_date'', Str ''02/03/2024''),
         (''description'', Str ''''),
         (''raw_line'', Str ''AMAZON.COM INC (AMZN) S 02/01/2024 02/03/2024 $50,001-$100,000'')]"
  by code_simp

subsection \<open>C3: the ticker on the next line\<close>



subsection \<open>C4: header and footer lines\<close>

text \<open>
  C4, as stated: a line that contains \<open>TOTAL\<close> or \<open>ASSET\<close> and an action keyword is never
  a candidate trade line. The three structural patterns are tried first and accept a line
  whatever keywords it contains: the line below contains \<open>TOTAL\<close> and \<open>SALE\<close> and is
  accepted by the first pattern.
\<close>

theorem C4_counterexample:
  "contains ''TOTAL'' (upper ''VANGUARD TOTAL STOCK MARKET ETF (VTI) S 01/02/2024 01/10/2024 $1,001 - SALE'') \<and>
   any_in action_keywords (upper ''VANGUARD TOTAL STOCK MARKET ETF (VTI) S 01/02/2024 01/10/2024 $1,001 - SALE'') \<and>
   is_trade_line ''VANGUARD TOTAL STOCK MARKET ETF (VTI) S 01/02/2024 01/10/2024 $1,001 - SALE''"
  by code_simp

text \<open>
  C4, amended: a line that matches none of the three structural patterns and contains
  \<open>TOTAL\<close> or \<open>ASSET\<close> (in any case) and an action keyword is not a candidate trade line.
\<close>

theorem C4_header_rejection:
  assumes "re_search ptr_pattern1 line = None"
    and "re_search ptr_pattern2 line = None"
    and "re_search ptr_pattern3 line = None"
    and "contains ''TOTAL'' (upper line) \<or> contains ''ASSET'' (upper line)"
    and "any_in action_keywords (upper line)"
  shows "\<not> is_trade_line line"
proof -
  from assms(4) have "any_in skip_keywords (upper line)"
    by (auto simp add: any_in_def skip_keywords_def)
  with assms(1-3) show ?thesis
    by (simp add: is_trade_line_def Let_def)
qed

theorem C4_witness:
  "re_search ptr_pattern1 ''TOTAL PURCHASES OF STOCK'' = None \<and>
   re_search ptr_pattern2 ''TOTAL PURCHASES OF STOCK'' = None \<and>
   re_search ptr_pattern3 ''TOTAL PURCHASES OF STOCK'' = None \<and>
   (contains ''TOTAL'' (upper ''TOTAL PURCHASES OF STOCK'') \<or>
    contains ''ASSET'' (upper ''TOTAL PURCHASES OF STOCK'')) \<and>
   any_in action_keywords (upper ''TOTAL PURCHASES OF STOCK'') \<and>
   \<not> is_trade_line ''TOTAL PURCHASES OF STOCK''"
proof -
  have h1: "re_search ptr_pattern1 ''TOTAL PURCHASES OF STOCK'' = None" by code_simp
  have h2: "re_search ptr_pattern2 ''TOTAL PURCHASES OF STOCK'' = None" by code_simp
  have h3: "re_search ptr_pattern3 ''TOTAL PURCHASES OF STOCK'' = None" by code_simp
  have h4: "contains ''TOTAL'' (upper ''TOTAL PURCHASES OF STOCK'') \<or>
            contains ''ASSET'' (upper ''TOTAL PURCHASES OF STOCK'')" by code_simp
  have h5: "any_in action_keywords (upper ''TOTAL PURCHASES OF STOCK'')" by code_simp
  from h1 h2 h3 h4 h5 C4_header_rejection[OF h1 h2 h3 h4 h5] show ?thesis by blast
qed

subsection \<open>C5: the two dates of a record\<close>

text \<open>
  C5, as stated: every record, on every path, has a transaction date and a notification
  date. The dictionary of the fallback has the keys \<open>transaction_date\<close> and
  \<open>filing_date\<close>, and no key \<open>notification_date\<close>: the line below is accepted by the
  classifier, yields a record, and the record has no notification date.
\<close>

theorem C5_counterexample:
  "is_trade_line ''PURCHASE APPLE INC $1,001-$15,000'' \<and>
   parse_trade_line ''PURCHASE APPLE INC $1,001-$15,000'' [''PURCHASE APPLE INC $1,001-$15,000''] 0 \<noteq> None \<and>
   field (parse_trade_line ''PURCHASE APPLE INC $1,001-$15,000'' [''PURCHASE APPLE INC $1,001-$15,000''] 0)
     ''notification_date'' = None"
  by code_simp

text \<open>
  C5, amended: every record has a transaction date that is a date token (one or two
  digits, a slash, one or two digits, a slash, four digits) or \<open>Unknown\<close>. A record of a
  structural shape has a transaction date and a notification date that are both date
  tokens. A record of the fallback has no notification date; it has a filing date instead,
  a date token or \<open>Unknown\<close>.
\<close>

theorem C5_dates:
  assumes "parse_trade_line line all_lines i = Some t"
  shows "date_or_unknown_field t ''transaction_date'' \<and>
         (if parse_ptr_trade_line line all_lines i = None
          then map_of t ''notification_date'' = None \<and> date_or_unknown_field t ''filing_date''
          else date_field t ''transaction_date'' \<and> date_field t ''notification_date'')"
  using parse_trade_line_cases[OF assms] by (auto simp add: date_field_or_unknown)
theorem C5_witness:
  "parse_trade_line ''SP WIDGET CO P 03/01/2024 03/05/2024 $1,001 -''
     [''SP WIDGET CO P 03/01/2024 03/05/2024 $1,001 -'', ''(WDG) $15,000''] 0 =
   Some [(''asset_name'', Str ''WIDGET CO''), (''ticker'', Str ''WDG''),
      (''trade_type'', Str ''stock''), (''action'', Str ''BUY''),
      (''amount_range'', Str ''$1,001 - $15,000''),
      (''transaction_date'', Str ''03/01/2024''),
      (''notification_date'', Str ''03/05/2024''), (''description'', Str ''''),
      (''raw_line'', Str ''SP WIDGET CO P 03/01/2024 03/05/2024 $1,001 -'')] \<and>
   date_field [(''asset_name'', Str ''WIDGET CO''), (''ticker'', Str ''WDG''),
      (''trade_type'', Str ''stock''), (''action'', Str ''BUY''),
      (''amount_range'', Str ''$1,001 - $15,000''),
      (''transaction_date'', Str ''03/01/2024''),
      (''notification_date'', Str ''03/05/2024''), (''description'', Str ''''),
      (''raw_line'', Str ''SP WIDGET CO P 03/01/2024 03/05/2024 $1,001 -'')] ''transaction_date'' \<and>
   date_field [(''asset_name'', Str ''WIDGET CO''), (''ticker'', Str ''WDG''),
      (''trade_type'', Str ''stock''), (''action'', Str ''BUY''),
      (''amount_range'', Str ''$1,001 - $15,000''),
      (''transaction_date'', Str ''03/01/2024''),
      (''notification_date'', Str ''03/05/2024''), (''description'', Str ''''),
      (''raw_line'', Str ''SP WIDGET CO P 03/01/2024 03/05/2024 $1,001 -'')] ''notification_date'' \<and>
   parse_trade_line ''PURCHASE APPLE INC $1,001-$15,000'' [''PURCHASE APPLE INC $1,001-$15,000''] 0 =
   Some [(''asset_name'', Str ''PURCHASE APPLE INC''), (''ticker'', PyNone),
      (''trade_type'', Str ''stock''), (''action'', Str ''BUY''),
      (''amount_range'', Str ''$1,001-$15,000''),
      (''transaction_date'', Str ''Unknown''), (''filing_date'', Str ''Unknown''),
      (''raw_line'', Str ''PURCHASE APPLE INC $1,001-$15,000'')] \<and>
   map_of [(''asset_name'', Str ''PURCHASE APPLE INC''), (''ticker'', PyNone),
      (''trade_type'', Str ''stock''), (''action'', Str ''BUY''),
      (''amount_range'', Str ''$1,001-$15,000''),
      (''transaction_date'', Str ''Unknown''), (''filing_date'', Str ''Unknown''),
      (''raw_line'', Str ''PURCHASE APPLE INC $1,001-$15,000'')] ''notification_date'' = None \<and>
   date_or_unknown_field [(''asset_name'', Str ''PURCHASE APPLE INC''), (''ticker'', PyNone),
      (''trade_type'', Str ''stock''), (''action'', Str ''BUY''),
      (''amount_range'', Str ''$1,001-$15,000''),
      (''transaction_date'', Str ''Unknown''), (''filing_date'', Str ''Unknown''),
      (''raw_line'', Str ''PURCHASE APPLE INC $1,001-$15,000'')] ''filing_date''"
proof -
  let ?l = "''SP WIDGET CO P 03/01/2024 03/05/2024 $1,001 -''"
  let ?n = "''(WDG) $15,000''"
  let ?h = "''PURCHASE APPLE INC $1,001-$15,000''"
  have s: "parse_trade_line ?l [?l, ?n] 0 = Some [(''asset_name'', Str ''WIDGET CO''), (''ticker'', Str ''WDG''),
      (''trade_type'', Str ''stock''), (''action'', Str ''BUY''),
      (''amount_range'', Str ''$1,001 - $15,000''),
      (''transaction_date'', Str ''03/01/2024''),
      (''notification_date'', Str ''03/05/2024''), (''description'', Str ''''),
      (''raw_line'', Str ''SP WIDGET CO P 03/01/2024 03/05/2024 $1,001 -'')]"
    by code_simp
  have s': "parse_ptr_trade_line ?l [?l, ?n] 0 \<noteq> None" by code_simp
  have f: "parse_trade_line ?h [?h] 0 = Some [(''asset_name'', Str ''PURCHASE APPLE INC''), (''ticker'', PyNone),
      (''trade_type'', Str ''stock''), (''action'', Str ''BUY''),
      (''amount_range'', Str ''$1,001-$15,000''),
      (''transaction_date'', Str ''Unknown''), (''filing_date'', Str ''Unknown''),
      (''raw_line'', Str ''PURCHASE APPLE INC $1,001-$15,000'')]"
    by code_simp
  have f': "parse_ptr_trade_line ?h [?h] 0 = None" by code_simp
  from C5_dates[OF s] s' have "date_field [(''asset_name'', Str ''WIDGET CO''), (''ticker'', Str ''WDG''),
      (''trade_type'', Str ''stock''), (''action'', Str ''BUY''),
      (''amount_range'', Str ''$1,001 - $15,000''),
      (''transaction_date'', Str ''03/01/2024''),
      (''notification_date'', Str ''03/05/2024''), (''description'', Str ''''),
      (''raw_line'', Str ''SP WIDGET CO P 03/01/2024 03/05/2024 $1,001 -'')] ''transaction_date'' \<and>
      date_field [(''asset_name'', Str ''WIDGET CO''), (''ticker'', Str ''WDG''),
      (''trade_type'', Str ''stock''), (''action'', Str ''BUY''),
      (''amount_range'', Str ''$1,001 - $15,000''),
      (''transaction_date'', Str ''03/01/2024''),
      (''notification_date'', Str ''03/05/2024''), (''description'', Str ''''),
      (''raw_line'', Str ''SP WIDGET CO P 03/01/2024 03/05/2024 $1,001 -'')] ''notification_date''"
    by (simp only: if_False)
  moreover from C5_dates[OF f] f' have "map_of [(''asset_name'', Str ''PURCHASE APPLE INC''), (''ticker'', PyNone),
      (''trade_type'', Str ''stock''), (''action'', Str ''BUY''),
      (''amount_range'', Str ''$1,001-$15,000''),
      (''transaction_date'', Str ''Unknown''), (''filing_date'', Str ''Unknown''),
      (''raw_line'', Str ''PURCHASE APPLE INC $1,001-$15,000'')] ''notification_date'' = None \<and>
      date_or_unknown_field [(''asset_name'', Str ''PURCHASE APPLE INC''), (''ticker'', PyNone),
      (''trade_type'', Str ''stock''), (''action'', Str ''BUY''),
      (''amount_range'', Str ''$1,001-$15,000''),
      (''transaction_date'', Str ''Unknown''), (''filing_date'', Str ''Unknown''),
      (''raw_line'', Str ''PURCHASE APPLE INC $1,001-$15,000'')] ''filing_date''"
    by (simp only: if_True refl)
  ultimately show ?thesis using s f by (intro conjI) (elim conjE, assumption)+
qed

subsection \<open>C6: the amount cascade of the fallback\<close>

text \<open>
  C6: a line with an amount of the form \<open>Over $n\<close> should yield \<open>Over $n\<close>. The first
  pattern of the cascade, \<open>\$([0-9,]+)-?\$?([0-9,]+)?\<close>, matches every line that has a
  dollar sign followed by a digit or a comma, so the three later patterns, which all
  need such a dollar token, are never reached: the line \<open>Over $1,000,000\<close> yields
  \<open>$1,000,000\<close>.
\<close>

theorem C6_over_is_lost:
  "extract_amount_range ''Over $1,000,000'' = ''$1,000,000''"
  by code_simp

subsection \<open>C7: the ticker of a record\<close>

text \<open>
  C7, as stated: the ticker of every record is the sentinel \<open>N/A\<close> or one to five
  upper-case letters. The fallback sets the ticker to Python's \<open>None\<close> when the line has
  no ticker in parentheses: the line below is accepted by the classifier and its record
  has the ticker \<open>None\<close>.
\<close>

theorem C7_counterexample:
  "is_trade_line ''SALE OF ACME INC SHARES $1,001-$15,000'' \<and>
   field (parse_trade_line ''SALE OF ACME INC SHARES $1,001-$15,000''
            [''SALE OF ACME INC SHARES $1,001-$15,000''] 0) ''ticker'' = Some PyNone"
  by code_simp

text \<open>
  C7, amended: the ticker of every record is the sentinel \<open>N/A\<close>, or one to five upper-case
  letters, or Python's \<open>None\<close>; it is never the empty string, and it is \<open>None\<close> only in a
  record of the fallback: a record of a structural shape has \<open>N/A\<close> or one to five
  upper-case letters.
\<close>

theorem C7_ticker:
  assumes "parse_trade_line line all_lines i = Some t"
  shows "ticker_ok t \<and> (parse_ptr_trade_line line all_lines i \<noteq> None \<longrightarrow> spec_ticker_ok t)"
  using parse_trade_line_cases[OF assms]
  by (auto simp add: spec_valid_record_def valid_record_def spec_ticker_ok_ticker_ok)
theorem C7_witness:
  "parse_trade_line ''SP WIDGET CO P 03/01/2024 03/05/2024 $1,001 -''
     [''SP WIDGET CO P 03/01/2024 03/05/2024 $1,001 -'', ''(WDG) $15,000''] 0 =
   Some [(''asset_name'', Str ''WIDGET CO''), (''ticker'', Str ''WDG''),
      (''trade_type'', Str ''stock''), (''action'', Str ''BUY''),
      (''amount_range'', Str ''$1,001 - $15,000''),
      (''transaction_date'', Str ''03/01/2024''),
      (''notification_date'', Str ''03/05/2024''), (''description'', Str ''''),
      (''raw_line'', Str ''SP WIDGET CO P 03/01/2024 03/05/2024 $1,001 -'')] \<and>
   spec_ticker_ok [(''asset_name'', Str ''WIDGET CO''), (''ticker'', Str ''WDG''),
      (''trade_type'', Str ''stock''), (''action'', Str ''BUY''),
      (''amount_range'', Str ''$1,001 - $15,000''),
      (''transaction_date'', Str ''03/01/2024''),
      (''notification_date'', Str ''03/05/2024''), (''description'', Str ''''),
      (''raw_line'', Str ''SP WIDGET CO P 03/01/2024 03/05/2024 $1,001 -'')] \<and>
   parse_trade_line ''PURCHASE APPLE INC $1,001-$15,000'' [''PURCHASE APPLE INC $1,001-$15,000''] 0 =
   Some [(''asset_name'', Str ''PURCHASE APPLE INC''), (''ticker'', PyNone),
      (''trade_type'', Str ''stock''), (''action'', Str ''BUY''),
      (''amount_range'', Str ''$1,001-$15,000''),
      (''transaction_date'', Str ''Unknown''), (''filing_date'', Str ''Unknown''),
      (''raw_line'', Str ''PURCHASE APPLE INC $1,001-$15,000'')] \<and>
   ticker_ok [(''asset_name'', Str ''PURCHASE APPLE INC''), (''ticker'', PyNone),
      (''trade_type'', Str ''stock''), (''action'', Str ''BUY''),
      (''amount_range'', Str ''$1,001-$15,000''),
      (''transaction_date'', Str ''Unknown''), (''filing_date'', Str ''Unknown''),
      (''raw_line'', Str ''PURCHASE APPLE INC $1,001-$15,000'')]"
proof -
  let ?l = "''SP WIDGET CO P 03/01/2024 03/05/2024 $1,001 -''"
  let ?n = "''(WDG) $15,000''"
  let ?h = "''PURCHASE APPLE INC $1,001-$15,000''"
  have s: "parse_trade_line ?l [?l, ?n] 0 = Some [(''asset_name'', Str ''WIDGET CO''), (''ticker'', Str ''WDG''),
      (''trade_type'', Str ''stock''), (''action'', Str ''BUY''),
      (''amount_range'', Str ''$1,001 - $15,000''),
      (''transaction_date'', Str ''03/01/2024''),
      (''notification_date'', Str ''03/05/2024''), (''description'', Str ''''),
      (''raw_line'', Str ''SP WIDGET CO P 03/01/2024 03/05/2024 $1,001 -'')]"
    by code_simp
  have s': "parse_ptr_trade_line ?l [?l, ?n] 0 \<noteq> None" by code_simp
  have f: "parse_trade_line ?h [?h] 0 = Some [(''asset_name'', Str ''PURCHASE APPLE INC''), (''ticker'', PyNone),
      (''trade_type'', Str ''stock''), (''action'', Str ''BUY''),
      (''amount_range'', Str ''$1,001-$15,000''),
      (''transaction_date'', Str ''Unknown''), (''filing_date'', Str ''Unknown''),
      (''raw_line'', Str ''PURCHASE APPLE INC $1,001-$15,000'')]"
    by code_simp
  from C7_ticker[OF s] s' have "spec_ticker_ok [(''asset_name'', Str ''WIDGET CO''), (''ticker'', Str ''WDG''),
      (''trade_type'', Str ''stock''), (''action'', Str ''BUY''),
      (''amount_range'', Str ''$1,001 - $15,000''),
      (''transaction_date'', Str ''03/01/2024''),
      (''notification_date'', Str ''03/05/2024''), (''description'', Str ''''),
      (''raw_line'', Str ''SP WIDGET CO P 03/01/2024 03/05/2024 $1,001 -'')]"
    by blast
  moreover from C7_ticker[OF f] have "ticker_ok [(''asset_name'', Str ''PURCHASE APPLE INC''), (''ticker'', PyNone),
      (''trade_type'', Str ''stock''), (''action'', Str ''BUY''),
      (''amount_range'', Str ''$1,001-$15,000''),
      (''transaction_date'', Str ''Unknown''), (''filing_date'', Str ''Unknown''),
      (''raw_line'', Str ''PURCHASE APPLE INC $1,001-$15,000'')]"
    by blast
  ultimately show ?thesis using s f by (intro conjI)
qed

subsection \<open>C8: the description of an option trade\<close>

text \<open>
  C8, as stated: once a \<open>D:\<close> line has been seen, every later line is appended as it is
  until a line that starts with \<open>SP \<close> or \<open>L:\<close>. The loop tests for \<open>D:\<close> first, on
  every line: a later \<open>D:\<close> line loses its marker as the first one does. Below, the code
  returns \<open>a b\<close> where the claim has \<open>a D: b\<close>.
\<close>

theorem C8_counterexample:
  "extract_description_for_trade [''SP X'', ''D: a'', ''D: b''] 0 = Inr ''a b'' \<and>
   description_claimed [''SP X'', ''D: a'', ''D: b''] 0 = ''a D: b''"
  by code_simp

text \<open>
  C8, amended: for a line index that is not negative, the scan looks at the at most 9 lines
  after the index; each line is trimmed, freed of null bytes and trimmed again. If a line
  starting with \<open>SP \<close> comes before the first line starting with \<open>D:\<close>, or if there is no
  line starting with \<open>D:\<close>, the description is empty. Otherwise it is made of the lines
  from the first \<open>D:\<close> line up to the first later line that starts with \<open>SP \<close> or \<open>L:\<close>
  (and not with \<open>D:\<close>), each \<open>D:\<close> line among them without its marker and trimmed,
  joined by single spaces. The function never raises there.
\<close>

theorem C8_description:
  "extract_description_for_trade all_lines (int i) =
     Inr (join '' '' (description_block (map clean_line (window all_lines i))))"
  by (rule extract_description_nat)


theorem C8_witness:
  "extract_description_for_trade
     [''SP ACME INC S 01/02/2024 01/03/2024 $1,001 -'', ''(ACM) [OP] $15,000'', ''F S: New'',
      ''D: Sold 10 call options'', ''  with a strike price of $100'', ''L: US'', ''SP OTHER'']
     (int 0) =
   Inr ''Sold 10 call options with a strike price of $100''"
proof -
  have "join '' '' (description_block (map clean_line (window
     [''SP ACME INC S 01/02/2024 01/03/2024 $1,001 -'', ''(ACM) [OP] $15,000'', ''F S: New'',
      ''D: Sold 10 call options'', ''  with a strike price of $100'', ''L: US'', ''SP OTHER'']
     0))) = ''Sold 10 call options with a strike price of $100''"
    by code_simp
  then show ?thesis
    by (simp only: C8_description)
qed

subsection \<open>C9: the extractor never raises\<close>

text \<open>
  C9, as stated: for a line accepted by the classifier the extractor returns no record or
  a record that satisfies the three record invariants, among them the ticker invariant of
  C7. The line below is accepted, and its record has the ticker \<open>None\<close>: it fails the
  invariants as stated, and meets them once \<open>None\<close> is admitted as a ticker.
\<close>

theorem C9_counterexample:
  "is_trade_line ''ACQUIRED 100 SHARES OF WIDGET LLC'' \<and>
   map_option (spec_valid_record ''ACQUIRED 100 SHARES OF WIDGET LLC'')
     (parse_trade_line ''ACQUIRED 100 SHARES OF WIDGET LLC''
        [''ACQUIRED 100 SHARES OF WIDGET LLC''] 0) = Some False \<and>
   map_option (valid_record ''ACQUIRED 100 SHARES OF WIDGET LLC'')
     (parse_trade_line ''ACQUIRED 100 SHARES OF WIDGET LLC''
        [''ACQUIRED 100 SHARES OF WIDGET LLC''] 0) = Some True"
  by code_simp

text \<open>
  C9, amended: for every line accepted by the classifier, every sequence of lines and
  every index (negative and out of range included), the body of the extractor raises
  nothing, so that its \<open>except\<close> clause is never entered, and the extractor returns no
  record or a record that satisfies the three record invariants with \<open>None\<close> admitted as
  a ticker: a non-empty, trimmed asset name and the action \<open>BUY\<close> or \<open>SELL\<close>; a ticker
  that is \<open>N/A\<close>, one to five upper-case letters, or \<open>None\<close>; an amount that is
  \<open>Unknown\<close> only when none of the four amount patterns matches the line, and that
  otherwise begins with \<open>$\<close>, \<open>Over $\<close> or \<open>Under $\<close>.
\<close>

theorem C9_never_raises:
  assumes "is_trade_line line"
  shows "(\<exists>r. parse_trade_line_body line all_lines i = Inr r) \<and>
         (parse_trade_line line all_lines i = None \<or>
          (\<exists>t. parse_trade_line line all_lines i = Some t \<and> valid_record line t))"
proof -
  have "parse_trade_line line all_lines i = None \<or>
          (\<exists>t. parse_trade_line line all_lines i = Some t \<and> valid_record line t)"
  proof (cases "parse_trade_line line all_lines i")
    case None
    then show ?thesis by simp
  next
    case (Some t)
    from parse_trade_line_cases[OF Some] have "valid_record line t"
      by (auto simp add: spec_valid_record_valid)
    with Some show ?thesis by simp
  qed
  with parse_trade_line_body_total show ?thesis by blast
qed

theorem C9_witness:
  "is_trade_line ''SP WIDGET CO P 03/01/2024 03/05/2024 $1,001 -'' \<and>
   parse_trade_line ''SP WIDGET CO P 03/01/2024 03/05/2024 $1,001 -''
     [''SP WIDGET CO P 03/01/2024 03/05/2024 $1,001 -'', ''(WDG) $15,000''] 0 =
   Some [(''asset_name'', Str ''WIDGET CO''), (''ticker'', Str ''WDG''),
      (''trade_type'', Str ''stock''), (''action'', Str ''BUY''),
      (''amount_range'', Str ''$1,001 - $15,000''),
      (''transaction_date'', Str ''03/01/2024''),
      (''notification_date'', Str ''03/05/2024''), (''description'', Str ''''),
      (''raw_line'', Str ''SP WIDGET CO P 03/01/2024 03/05/2024 $1,001 -'')] \<and>
   valid_record ''SP WIDGET CO P 03/01/2024 03/05/2024 $1,001 -''
     [(''asset_name'', Str ''WIDGET CO''), (''ticker'', Str ''WDG''),
      (''trade_type'', Str ''stock''), (''action'', Str ''BUY''),
      (''amount_range'', Str ''$1,001 - $15,000''),
      (''transaction_date'', Str ''03/01/2024''),
      (''notification_date'', Str ''03/05/2024''), (''description'', Str ''''),
      (''raw_line'', Str ''SP WIDGET CO P 03/01/2024 03/05/2024 $1,001 -'')] \<and>
   is_trade_line ''ACQUIRED 100 SHARES OF WIDGET LLC'' \<and>
   parse_trade_line ''ACQUIRED 100 SHARES OF WIDGET LLC'' [''ACQUIRED 100 SHARES OF WIDGET LLC''] 0 =
   Some [(''asset_name'', Str ''ACQUIRED''), (''ticker'', PyNone),
      (''trade_type'', Str ''stock''), (''action'', Str ''BUY''),
      (''amount_range'', Str ''Unknown''),
      (''transaction_date'', Str ''Unknown''), (''filing_date'', Str ''Unknown''),
      (''raw_line'', Str ''ACQUIRED 100 SHARES OF WIDGET LLC'')] \<and>
   valid_record ''ACQUIRED 100 SHARES OF WIDGET LLC''
     [(''asset_name'', Str ''ACQUIRED''), (''ticker'', PyNone),
      (''trade_type'', Str ''stock''), (''action'', Str ''BUY''),
      (''amount_range'', Str ''Unknown''),
      (''transaction_date'', Str ''Unknown''), (''filing_date'', Str ''Unknown''),
      (''raw_line'', Str ''ACQUIRED 100 SHARES OF WIDGET LLC'')]"
proof -
  let ?l = "''SP WIDGET CO P 03/01/2024 03/05/2024 $1,001 -''"
  let ?n = "''(WDG) $15,000''"
  let ?a = "''ACQUIRED 100 SHARES OF WIDGET LLC''"
  have c: "is_trade_line ?l" by code_simp
  have s: "parse_trade_line ?l [?l, ?n] 0 =
   Some [(''asset_name'', Str ''WIDGET CO''), (''ticker'', Str ''WDG''),
      (''trade_type'', Str ''stock''), (''action'', Str ''BUY''),
      (''amount_range'', Str ''$1,001 - $15,000''),
      (''transaction_date'', Str ''03/01/2024''),
      (''notification_date'', Str ''03/05/2024''), (''description'', Str ''''),
      (''raw_line'', Str ''SP WIDGET CO P 03/01/2024 03/05/2024 $1,001 -'')]"
    by code_simp
  have c': "is_trade_line ?a" by code_simp
  have s': "parse_trade_line ?a [?a] 0 =
   Some [(''asset_name'', Str ''ACQUIRED''), (''ticker'', PyNone),
      (''trade_type'', Str ''stock''), (''action'', Str ''BUY''),
      (''amount_range'', Str ''Unknown''),
      (''transaction_date'', Str ''Unknown''), (''filing_date'', Str ''Unknown''),
      (''raw_line'', Str ''ACQUIRED 100 SHARES OF WIDGET LLC'')]"
    by code_simp
  from C9_never_raises[OF c, of "[?l, ?n]" "0"]
  have "parse_trade_line ?l [?l, ?n] 0 = None \<or>
      (\<exists>t. parse_trade_line ?l [?l, ?n] 0 = Some t \<and> valid_record ?l t)"
    by (elim conjE)
  then have v: "valid_record ?l
     [(''asset_name'', Str ''WIDGET CO''), (''ticker'', Str ''WDG''),
      (''trade_type'', Str ''stock''), (''action'', Str ''BUY''),
      (''amount_range'', Str ''$1,001 - $15,000''),
      (''transaction_date'', Str ''03/01/2024''),
      (''notification_date'', Str ''03/05/2024''), (''description'', Str ''''),
      (''raw_line'', Str ''SP WIDGET CO P 03/01/2024 03/05/2024 $1,001 -'')]"
    unfolding s by simp
  from C9_never_raises[OF c', of "[?a]" "0"]
  have "parse_trade_line ?a [?a] 0 = None \<or>
      (\<exists>t. parse_trade_line ?a [?a] 0 = Some t \<and> valid_record ?a t)"
    by (elim conjE)
  then have v': "valid_record ?a
     [(''asset_name'', Str ''ACQUIRED''), (''ticker'', PyNone),
      (''trade_type'', Str ''stock''), (''action'', Str ''BUY''),
      (''amount_range'', Str ''Unknown''),
      (''transaction_date'', Str ''Unknown''), (''filing_date'', Str ''Unknown''),
      (''raw_line'', Str ''ACQUIRED 100 SHARES OF WIDGET LLC'')]"
    unfolding s' by simp
  from c s v c' s' v' show ?thesis by (intro conjI)
qed

subsection \<open>C10: the two multi-line patterns on the last line\<close>

text \<open>
  C10, as stated: for a line that matches one of the two \<open>SP\<close> patterns and is the last
  line, the structural extractor returns no record, and a record can then only come from
  the fallback. A line can match the single-line pattern as well, which is tried first and
  needs no next line: the line below is the only line, the structural extractor returns a
  record for it, and the line has no action keyword of the fallback.
\<close>

theorem C10_counterexample:
  "re_search pattern2 ''SP WIDGET CO (WDG) S 03/01/2024 03/05/2024 $1,001 -'' \<noteq> None \<and>
   parse_ptr_trade_line ''SP WIDGET CO (WDG) S 03/01/2024 03/05/2024 $1,001 -''
     [''SP WIDGET CO (WDG) S 03/01/2024 03/05/2024 $1,001 -''] 0 \<noteq> None \<and>
   extract_action ''SP WIDGET CO (WDG) S 03/01/2024 03/05/2024 $1,001 -'' = None"
  by code_simp

text \<open>
  C10, amended: for a line that is the last line of the sequence, matches one of the two
  \<open>SP\<close> patterns and does not match the single-line pattern, the structural extractor
  returns no record, and the extractor returns a record only if the line has an action
  keyword of the fallback.
\<close>

theorem C10_last_line:
  assumes "all_lines \<noteq> []"
    and "line = last all_lines"
    and "line_index = int (length all_lines) - 1"
    and "re_search pattern2 line \<noteq> None \<or> re_search pattern3 line \<noteq> None"
    and "re_search pattern line = None"
  shows "parse_ptr_trade_line line all_lines line_index = None \<and>
         (parse_trade_line line all_lines line_index = None \<or> extract_action line \<noteq> None)"
proof -
  have n: "parse_ptr_trade_line line all_lines line_index = None"
    unfolding assms(3) by (rule parse_ptr_no_next[OF assms(5) has_next_line_last])
  with parse_trade_line_fallback[OF n] show ?thesis by blast
qed

theorem C10_witness:
  "[''SP WIDGET INC SALE S 03/01/2024 03/05/2024 $1,001 -''] \<noteq> [] \<and>
   re_search pattern2 ''SP WIDGET INC SALE S 03/01/2024 03/05/2024 $1,001 -'' \<noteq> None \<and>
   re_search pattern ''SP WIDGET INC SALE S 03/01/2024 03/05/2024 $1,001 -'' = None \<and>
   parse_ptr_trade_line ''SP WIDGET INC SALE S 03/01/2024 03/05/2024 $1,001 -''
     [''SP WIDGET INC SALE S 03/01/2024 03/05/2024 $1,001 -''] 0 = None \<and>
   parse_trade_line ''SP WIDGET INC SALE S 03/01/2024 03/05/2024 $1,001 -''
     [''SP WIDGET INC SALE S 03/01/2024 03/05/2024 $1,001 -''] 0 \<noteq> None \<and>
   extract_action ''SP WIDGET INC SALE S 03/01/2024 03/05/2024 $1,001 -'' \<noteq> None"
proof -
  let ?l = "''SP WIDGET INC SALE S 03/01/2024 03/05/2024 $1,001 -''"
  have h1: "[?l] \<noteq> []" by simp
  have h2: "?l = last [?l]" by simp
  have h3: "(0::int) = int (length [?l]) - 1" by simp
  have h4: "re_search pattern2 ?l \<noteq> None" by code_simp
  have h5: "re_search pattern ?l = None" by code_simp
  have h6: "parse_trade_line ?l [?l] 0 \<noteq> None" by code_simp
  from C10_last_line[OF h1 h2 h3 disjI1[OF h4] h5] h1 h4 h5 h6 show ?thesis by blast
qed

end
